theory Spec2Isabelle
  imports Main "HOL-Library.Sublist"
begin

section \<open>Candlestick synchronisation: the model\<close>

text \<open>
  The development embeds \<^verbatim>\<open>BinanceService\<close> (services/binance.service.ts) together with
  the two repositories it writes through (\<^verbatim>\<open>SymbolsRepository\<close>,
  \<^verbatim>\<open>CandlesticksRepository\<close>) and the two tables of database/schema.ts they touch.

  JavaScript strings are lists of code units (\<^typ>\<open>string\<close>). JavaScript numbers that
  hold timestamps and counts are \<^typ>\<open>int\<close> and \<^typ>\<open>nat\<close>: the code only adds and
  compares them, and every sum it sends on lies inside the range in which doubles are
  exact (see \<open>validDate\<close> below).

  The database and the exchange are the environment. A database call either throws, with
  no effect on the tables, or does what its SQL says on tables kept as lists of rows;
  which calls throw is for the environment to say, and so is every answer of the exchange.
  A thrown value is an \<^verbatim>\<open>Error\<close> with a message, as the driver, axios and the runtime
  throw them. The runtime is Node.js; its limits on call depth and argument count are not
  modelled. A call that never returns has the value \<open>None\<close>.
\<close>

subsection \<open>parseSymbol\<close>

definition commonQuotes :: "string list" where
  "commonQuotes = [''USDT'', ''BUSD'', ''BTC'', ''ETH'', ''BNB'', ''USDC'', ''USD'']"

text \<open>\<^verbatim>\<open>symbol.endsWith(quote)\<close>.\<close>

definition endsWith :: "string \<Rightarrow> string \<Rightarrow> bool" where
  "endsWith s q = (length q \<le> length s \<and> drop (length s - length q) s = q)"

text \<open>
  \<^verbatim>\<open>s.slice(0, -n)\<close> and \<^verbatim>\<open>s.slice(-n)\<close> for \<open>n > 0\<close>: a negative index counts from the
  end and is clamped at the start of the string, which is what truncating subtraction on
  \<^typ>\<open>nat\<close> does.
\<close>

definition sliceHead :: "string \<Rightarrow> nat \<Rightarrow> string" where
  "sliceHead s n = take (length s - n) s"

definition sliceTail :: "string \<Rightarrow> nat \<Rightarrow> string" where
  "sliceTail s n = drop (length s - n) s"

text \<open>The \<^verbatim>\<open>for (const quote of commonQuotes)\<close> loop: the first matching quote returns.\<close>

fun parseLoop :: "string list \<Rightarrow> string \<Rightarrow> (string \<times> string) option" where
  "parseLoop [] symbol = None"
| "parseLoop (quote # rest) symbol =
     (if endsWith symbol quote then Some (sliceHead symbol (length quote), quote)
      else parseLoop rest symbol)"

text \<open>The result pair is \<open>(baseAsset, quoteAsset)\<close>.\<close>

definition parseSymbol :: "string \<Rightarrow> string \<times> string" where
  "parseSymbol symbol =
     (case parseLoop commonQuotes symbol of
        Some r \<Rightarrow> r
      | None \<Rightarrow>
          if length symbol > 4 then (sliceHead symbol 4, sliceTail symbol 4)
          else (symbol, ''UNKNOWN''))"

text \<open>
  The classification as the specification words it: the first entry of the priority list
  that is a suffix of the code wins and the base is the remaining prefix; otherwise the
  last four characters of a code longer than four, otherwise \<open>UNKNOWN\<close>.
\<close>

definition classify_spec :: "string \<Rightarrow> string \<times> string" where
  "classify_spec code =
     (case find (\<lambda>q. suffix q code)
             [''USDT'', ''BUSD'', ''BTC'', ''ETH'', ''BNB'', ''USDC'', ''USD''] of
        Some q \<Rightarrow> (take (length code - length q) code, q)
      | None \<Rightarrow>
          if 4 < length code
          then (take (length code - 4) code, drop (length code - 4) code)
          else (code, ''UNKNOWN''))"

subsection \<open>getIntervalMs\<close>

text \<open>
  \<^verbatim>\<open>intervalMap\<close> is an object literal, so \<^verbatim>\<open>intervalMap[interval]\<close> finds the fifteen own
  keys and, for any other string, whatever the object inherits from
  \<^verbatim>\<open>Object.prototype\<close>: \<^verbatim>\<open>intervalMap['toString']\<close> is a function and
  \<^verbatim>\<open>intervalMap['__proto__']\<close> an object. Such a value is truthy, survives the
  \<^verbatim>\<open>|| 60 * 1000\<close> and is returned, although it is not a number.
\<close>

datatype js_value = JSNumber int | JSInherited

definition intervalMap :: "(string \<times> int) list" where
  "intervalMap =
     [(''1m'', 60 * 1000),
      (''3m'', 3 * 60 * 1000),
      (''5m'', 5 * 60 * 1000),
      (''15m'', 15 * 60 * 1000),
      (''30m'', 30 * 60 * 1000),
      (''1h'', 60 * 60 * 1000),
      (''2h'', 2 * 60 * 60 * 1000),
      (''4h'', 4 * 60 * 60 * 1000),
      (''6h'', 6 * 60 * 60 * 1000),
      (''8h'', 8 * 60 * 60 * 1000),
      (''12h'', 12 * 60 * 60 * 1000),
      (''1d'', 24 * 60 * 60 * 1000),
      (''3d'', 3 * 24 * 60 * 60 * 1000),
      (''1w'', 7 * 24 * 60 * 60 * 1000),
      (''1M'', 30 * 24 * 60 * 60 * 1000)]"

definition objectPrototypeKeys :: "string list" where
  "objectPrototypeKeys =
     [''constructor'', ''hasOwnProperty'', ''isPrototypeOf'', ''propertyIsEnumerable'',
      ''toLocaleString'', ''toString'', ''valueOf'', ''__proto__'',
      ''__defineGetter__'', ''__defineSetter__'', ''__lookupGetter__'', ''__lookupSetter__'']"

definition getIntervalMs :: "string \<Rightarrow> js_value" where
  "getIntervalMs interval =
     (case map_of intervalMap interval of
        Some ms \<Rightarrow> if ms \<noteq> 0 then JSNumber ms else JSNumber (60 * 1000)
      | None \<Rightarrow>
          if interval \<in> set objectPrototypeKeys then JSInherited
          else JSNumber (60 * 1000))"

subsection \<open>Rows, requests and the world\<close>

text \<open>
  The two tables of database/schema.ts that the service writes. The \<^verbatim>\<open>created_at\<close> and
  \<^verbatim>\<open>updated_at\<close> columns are filled by the database clock and left out; decimal columns
  are kept as the strings the service passes.
\<close>

record symbol_row =
  sym_id :: nat
  sym_symbol :: string
  sym_baseAsset :: string
  sym_quoteAsset :: string
  sym_isActive :: bool

text \<open>\<^verbatim>\<open>NewCandlestick\<close>: the columns the service supplies.\<close>

record new_candlestick =
  symbolId :: nat
  interval :: string
  openTime :: int
  closeTime :: int
  openPrice :: string
  high :: string
  low :: string
  closePrice :: string
  volume :: string
  quoteAssetVolume :: string
  numberOfTrades :: int
  takerBuyBaseAssetVolume :: string
  takerBuyQuoteAssetVolume :: string

text \<open>\<^verbatim>\<open>Candlestick\<close>: a stored row, the supplied columns with the serial \<^verbatim>\<open>id\<close>.\<close>

record candlestick =
  cs_id :: nat
  cs_data :: new_candlestick

text \<open>\<^verbatim>\<open>BinanceKline\<close>, fields 0 to 11 in order.\<close>

record kline =
  k_openTime :: int
  k_open :: string
  k_high :: string
  k_low :: string
  k_close :: string
  k_volume :: string
  k_closeTime :: int
  k_quoteAssetVolume :: string
  k_numberOfTrades :: int
  k_takerBuyBase :: string
  k_takerBuyQuote :: string
  k_ignore :: string

text \<open>\<^verbatim>\<open>SyncCandlestickOptions\<close>.\<close>

record options =
  opt_symbol :: string
  opt_interval :: string
  opt_limit :: "int option"
  opt_startTime :: "int option"
  opt_endTime :: "int option"

text \<open>The query parameters of \<^verbatim>\<open>GET /api/v3/klines\<close>; an absent key is \<open>None\<close>.\<close>

record params =
  q_symbol :: string
  q_interval :: string
  q_startTime :: "int option"
  q_endTime :: "int option"
  q_limit :: "int option"

text \<open>
  What \<^verbatim>\<open>httpClient.get\<close> does: it resolves with the body of a 2xx response, or rejects
  with an error that has \<^verbatim>\<open>error.response?.status\<close> (absent for a transport failure),
  \<^verbatim>\<open>error.response?.data?.msg\<close> (absent when the upstream sent none) and
  \<^verbatim>\<open>error.message\<close>.
\<close>

datatype http_response =
    Resolved "kline list"
  | Rejected "nat option" "string option" string

text \<open>A thrown \<^verbatim>\<open>Error\<close> with its message.\<close>

datatype error = Error string

text \<open>The lines the logger writes, one constructor per call site, arguments unformatted.\<close>

datatype log_event =
    LogStarting string string
  | LogCreatedSymbol string
  | LogSyncingFrom int
  | LogNoExistingData
  | LogInserted nat string string
  | LogRateLimit
  | LogSyncFailed string string string

text \<open>
  The world the service acts on: the two tables with their serial sequences, the number
  of database calls made, the HTTP exchanges performed (request and response), the
  milliseconds spent in \<^verbatim>\<open>setTimeout\<close> waits, and the log.
\<close>

record world =
  symbolsT :: "symbol_row list"
  candlesticksT :: "candlestick list"
  symbolsSeq :: nat
  candlesticksSeq :: nat
  dbCalls :: nat
  httpLog :: "(params \<times> http_response) list"
  slept :: nat
  logged :: "log_event list"

text \<open>
  The behaviour of the two collaborators. \<open>dbFault env n\<close> is the message of the error
  the database throws on the call made after \<open>n\<close> earlier calls, if it throws (a lost
  connection, a rejected row); \<open>exchange env n p\<close> is the answer of the exchange to the
  request \<open>p\<close> made after \<open>n\<close> earlier requests.
\<close>

record env =
  dbFault :: "nat \<Rightarrow> string option"
  exchange :: "nat \<Rightarrow> params \<Rightarrow> http_response"

definition logLine :: "log_event \<Rightarrow> world \<Rightarrow> world" where
  "logLine ev w = w\<lparr>logged := logged w @ [ev]\<rparr>"

subsection \<open>The repositories\<close>

text \<open>One awaited database call: it throws if the environment says so, else runs.\<close>

definition dbCall :: "env \<Rightarrow> (world \<Rightarrow> 'a \<times> world) \<Rightarrow> world \<Rightarrow> (error + 'a) \<times> world" where
  "dbCall env run w =
     (case dbFault env (dbCalls w) of
        Some m \<Rightarrow> (Inl (Error m), w\<lparr>dbCalls := dbCalls w + 1\<rparr>)
      | None \<Rightarrow> (case run (w\<lparr>dbCalls := dbCalls w + 1\<rparr>) of (x, w') \<Rightarrow> (Inr x, w')))"

definition symbols_findBySymbol ::
  "env \<Rightarrow> string \<Rightarrow> world \<Rightarrow> (error + symbol_row option) \<times> world" where
  "symbols_findBySymbol env symbol =
     dbCall env (\<lambda>w. (find (\<lambda>r. sym_symbol r = symbol) (symbolsT w), w))"

definition symbols_create ::
  "env \<Rightarrow> string \<Rightarrow> string \<Rightarrow> string \<Rightarrow> bool \<Rightarrow> world \<Rightarrow> (error + symbol_row) \<times> world" where
  "symbols_create env symbol base quote active =
     dbCall env (\<lambda>w.
       let row = \<lparr>sym_id = symbolsSeq w + 1, sym_symbol = symbol, sym_baseAsset = base,
                  sym_quoteAsset = quote, sym_isActive = active\<rparr>
       in (row, w\<lparr>symbolsT := symbolsT w @ [row], symbolsSeq := symbolsSeq w + 1\<rparr>))"

definition matches :: "nat \<Rightarrow> string \<Rightarrow> candlestick \<Rightarrow> bool" where
  "matches sid iv c = (symbolId (cs_data c) = sid \<and> interval (cs_data c) = iv)"

definition candlesticks_findExisting ::
  "env \<Rightarrow> nat \<Rightarrow> string \<Rightarrow> int \<Rightarrow> world \<Rightarrow> (error + candlestick option) \<times> world" where
  "candlesticks_findExisting env sid iv t =
     dbCall env (\<lambda>w.
       (find (\<lambda>c. matches sid iv c \<and> openTime (cs_data c) = t) (candlesticksT w), w))"

text \<open>
  \<^verbatim>\<open>ORDER BY open_time DESC LIMIT 1\<close>, then \<^verbatim>\<open>result?.openTime || null\<close>: no row gives
  \<^verbatim>\<open>null\<close>, and so does a greatest open time of 0.
\<close>

definition latestOf :: "int list \<Rightarrow> int option" where
  "latestOf ts =
     (case ts of
        [] \<Rightarrow> None
      | t # rest \<Rightarrow> (let m = fold max rest t in if m \<noteq> 0 then Some m else None))"

definition candlesticks_getLatestTimestamp ::
  "env \<Rightarrow> nat \<Rightarrow> string \<Rightarrow> world \<Rightarrow> (error + int option) \<times> world" where
  "candlesticks_getLatestTimestamp env sid iv =
     dbCall env (\<lambda>w.
       (latestOf (map (\<lambda>c. openTime (cs_data c)) (filter (matches sid iv) (candlesticksT w))),
        w))"

text \<open>\<^verbatim>\<open>INSERT ... RETURNING\<close>: the rows get the next serial ids, in order.\<close>

fun assignIds :: "nat \<Rightarrow> new_candlestick list \<Rightarrow> candlestick list" where
  "assignIds n [] = []"
| "assignIds n (d # ds) = \<lparr>cs_id = n + 1, cs_data = d\<rparr> # assignIds (n + 1) ds"

definition candlesticks_createMany ::
  "env \<Rightarrow> new_candlestick list \<Rightarrow> world \<Rightarrow> (error + candlestick list) \<times> world" where
  "candlesticks_createMany env data w =
     (if length data = 0 then (Inr [], w)
      else dbCall env (\<lambda>w1.
             (assignIds (candlesticksSeq w1) data,
              w1\<lparr>candlesticksT := candlesticksT w1 @ assignIds (candlesticksSeq w1) data,
                  candlesticksSeq := candlesticksSeq w1 + length data\<rparr>)) w)"

subsection \<open>fetchKlines\<close>

text \<open>
  A key is put into \<^verbatim>\<open>params\<close> only when the option is truthy: an absent option and an
  option of 0 both leave the key out. The limit is capped by \<^verbatim>\<open>Math.min(limit, 1000)\<close>.
\<close>

definition truthy :: "int option \<Rightarrow> bool" where
  "truthy v = (case v of None \<Rightarrow> False | Some n \<Rightarrow> n \<noteq> 0)"

definition buildParams :: "options \<Rightarrow> params" where
  "buildParams opts =
     \<lparr>q_symbol = opt_symbol opts,
      q_interval = opt_interval opts,
      q_startTime = (if truthy (opt_startTime opts) then opt_startTime opts else None),
      q_endTime = (if truthy (opt_endTime opts) then opt_endTime opts else None),
      q_limit = (if truthy (opt_limit opts) then map_option (\<lambda>l. min l 1000) (opt_limit opts)
                 else None)\<rparr>"

text \<open>The request is made and recorded with its answer.\<close>

definition httpGet :: "env \<Rightarrow> params \<Rightarrow> world \<Rightarrow> http_response \<times> world" where
  "httpGet env p w =
     (let r = exchange env (length (httpLog w)) p
      in (r, w\<lparr>httpLog := httpLog w @ [(p, r)]\<rparr>))"

text \<open>
  \<^verbatim>\<open>error.response?.data?.msg || error.message\<close>: an absent or empty upstream message
  gives way to the message of the error itself.
\<close>

definition apiErrorMessage :: "string option \<Rightarrow> string \<Rightarrow> string" where
  "apiErrorMessage msg message =
     ''Binance API error: '' @
       (case msg of Some m \<Rightarrow> if m \<noteq> [] then m else message | None \<Rightarrow> message)"

text \<open>
  On status 429 the function warns, waits 1000 ms and calls itself with the same options;
  nothing bounds the number of calls, so the function need not return: \<open>None\<close> is the
  call that never returns.
\<close>

partial_function (option) fetchKlines ::
  "env \<Rightarrow> options \<Rightarrow> world \<Rightarrow> ((error + kline list) \<times> world) option" where
  "fetchKlines env opts w =
     (case httpGet env (buildParams opts) w of
        (Resolved data, w1) \<Rightarrow> Some (Inr data, w1)
      | (Rejected status msg message, w1) \<Rightarrow>
          if status = Some 429
          then fetchKlines env opts ((logLine LogRateLimit w1)\<lparr>slept := slept w1 + 1000\<rparr>)
          else Some (Inl (Error (apiErrorMessage msg message)), w1))"

subsection \<open>syncCandlesticks\<close>

text \<open>
  The result of a call. An absent \<^verbatim>\<open>latestTimestamp\<close> and a \<^verbatim>\<open>null\<close> one are both
  \<open>None\<close>.
\<close>

record sync_result =
  success :: bool
  message :: string
  candlesticksAdded :: nat
  latestTimestamp :: "int option"

text \<open>Lines 59 to 70: find the symbol row or create it from the parsed code.\<close>

definition resolveSymbol ::
  "env \<Rightarrow> string \<Rightarrow> world \<Rightarrow> (error + symbol_row) \<times> world" where
  "resolveSymbol env symbol w =
     (case symbols_findBySymbol env symbol w of
        (Inl e, w1) \<Rightarrow> (Inl e, w1)
      | (Inr (Some row), w1) \<Rightarrow> (Inr row, w1)
      | (Inr None, w1) \<Rightarrow>
          (case parseSymbol symbol of
             (baseAsset, quoteAsset) \<Rightarrow>
               (case symbols_create env symbol baseAsset quoteAsset True w1 of
                  (Inl e, w2) \<Rightarrow> (Inl e, w2)
                | (Inr row, w2) \<Rightarrow> (Inr row, logLine (LogCreatedSymbol symbol) w2))))"

text \<open>
  \<^verbatim>\<open>new Date(startTime).toISOString()\<close> throws a \<^verbatim>\<open>RangeError\<close> (message
  \<^verbatim>\<open>Invalid time value\<close>) unless the time value is within 8.64e15 ms of the epoch.
\<close>

definition validDate :: "int \<Rightarrow> bool" where
  "validDate t = (\<bar>t\<bar> \<le> 8640000000000000)"

text \<open>
  Lines 78 to 86. With a truthy cursor the start time is the cursor plus the interval's
  duration, and the log line formats it as a date, which throws for a time out of range.
  When \<open>getIntervalMs\<close> returned an inherited member instead of a number, \<^verbatim>\<open>+\<close>
  concatenates strings, the date parsed from the result is invalid and the same call
  throws.
\<close>

definition nextStartTime ::
  "string \<Rightarrow> int option \<Rightarrow> world \<Rightarrow> (error + int option) \<times> world" where
  "nextStartTime iv latest w =
     (case latest of
        None \<Rightarrow> (Inr None, logLine LogNoExistingData w)
      | Some t \<Rightarrow>
          if t \<noteq> 0 then
            (case getIntervalMs iv of
               JSNumber ms \<Rightarrow>
                 if validDate (t + ms)
                 then (Inr (Some (t + ms)), logLine (LogSyncingFrom (t + ms)) w)
                 else (Inl (Error ''Invalid time value''), w)
             | JSInherited \<Rightarrow> (Inl (Error ''Invalid time value''), w))
          else (Inr None, logLine LogNoExistingData w))"

text \<open>Lines 106 to 120.\<close>

definition toCandlestick :: "nat \<Rightarrow> string \<Rightarrow> kline \<Rightarrow> new_candlestick" where
  "toCandlestick sid iv k =
     \<lparr>symbolId = sid,
      interval = iv,
      openTime = k_openTime k,
      closeTime = k_closeTime k,
      openPrice = k_open k,
      high = k_high k,
      low = k_low k,
      closePrice = k_close k,
      volume = k_volume k,
      quoteAssetVolume = k_quoteAssetVolume k,
      numberOfTrades = k_numberOfTrades k,
      takerBuyBaseAssetVolume = k_takerBuyBase k,
      takerBuyQuoteAssetVolume = k_takerBuyQuote k\<rparr>"

text \<open>
  Lines 123 to 133: every bar of the page is looked up in the table, one call each, and
  pushed onto \<^verbatim>\<open>newCandlesticks\<close> when no row has its key. Nothing is inserted before the
  loop ends.
\<close>

fun filterNew ::
  "env \<Rightarrow> new_candlestick list \<Rightarrow> new_candlestick list \<Rightarrow> world
     \<Rightarrow> (error + new_candlestick list) \<times> world" where
  "filterNew env [] newCandlesticks w = (Inr newCandlesticks, w)"
| "filterNew env (c # rest) newCandlesticks w =
     (case candlesticks_findExisting env (symbolId c) (interval c) (openTime c) w of
        (Inl e, w1) \<Rightarrow> (Inl e, w1)
      | (Inr existing, w1) \<Rightarrow>
          filterNew env rest
            (if existing = None then newCandlesticks @ [c] else newCandlesticks) w1)"

text \<open>Lines 136 to 140.\<close>

definition insertNew ::
  "env \<Rightarrow> string \<Rightarrow> string \<Rightarrow> new_candlestick list \<Rightarrow> world
     \<Rightarrow> (error + candlestick list) \<times> world" where
  "insertNew env symbol iv newCandlesticks w =
     (if length newCandlesticks > 0 then
        (case candlesticks_createMany env newCandlesticks w of
           (Inl e, w1) \<Rightarrow> (Inl e, w1)
         | (Inr inserted, w1) \<Rightarrow>
             (Inr inserted, logLine (LogInserted (length inserted) symbol iv) w1))
      else (Inr [], w))"

text \<open>Decimal digits of a count, for the template string of the success message.\<close>

definition digit :: "nat \<Rightarrow> char" where
  "digit d = ''0123456789'' ! d"

function string_of_nat :: "nat \<Rightarrow> string" where
  "string_of_nat n =
     (if n < 10 then [digit n] else string_of_nat (n div 10) @ [digit (n mod 10)])"
  by pat_completeness auto
termination
  by (relation "measure id") auto

text \<open>\<^verbatim>\<open>candlesticks.length > 0 ? Math.max(...openTimes) : latestTimestamp\<close>.\<close>

definition newCursor :: "int list \<Rightarrow> int option \<Rightarrow> int option" where
  "newCursor ts latest =
     (case ts of [] \<Rightarrow> latest | t # rest \<Rightarrow> Some (fold max rest t))"

text \<open>Lines 96 to 151: what the call does with the page it fetched.\<close>

definition storePage ::
  "env \<Rightarrow> string \<Rightarrow> symbol_row \<Rightarrow> string \<Rightarrow> int option \<Rightarrow> kline list \<Rightarrow> world
     \<Rightarrow> (error + sync_result) \<times> world" where
  "storePage env symbol dbSymbol iv latest binanceKlines w =
     (if length binanceKlines = 0 then
        (Inr \<lparr>success = True, message = ''No new candlesticks to sync'',
              candlesticksAdded = 0, latestTimestamp = latest\<rparr>, w)
      else
        (case filterNew env (map (toCandlestick (sym_id dbSymbol) iv) binanceKlines) [] w of
           (Inl e, w1) \<Rightarrow> (Inl e, w1)
         | (Inr newCandlesticks, w1) \<Rightarrow>
             (case insertNew env symbol iv newCandlesticks w1 of
                (Inl e, w2) \<Rightarrow> (Inl e, w2)
              | (Inr inserted, w2) \<Rightarrow>
                  (Inr \<lparr>success = True,
                        message = ''Successfully synced '' @ string_of_nat (length inserted)
                                    @ '' candlesticks'',
                        candlesticksAdded = length inserted,
                        latestTimestamp =
                          newCursor
                            (map openTime
                               (map (toCandlestick (sym_id dbSymbol) iv) binanceKlines))
                            latest\<rparr>,
                   w2))))"

text \<open>The body of the \<^verbatim>\<open>try\<close> block, lines 56 to 151.\<close>

definition tryBlock ::
  "env \<Rightarrow> string \<Rightarrow> string \<Rightarrow> world \<Rightarrow> ((error + sync_result) \<times> world) option" where
  "tryBlock env symbol iv w =
     (case resolveSymbol env symbol (logLine (LogStarting symbol iv) w) of
        (Inl e, w1) \<Rightarrow> Some (Inl e, w1)
      | (Inr dbSymbol, w1) \<Rightarrow>
          (case candlesticks_getLatestTimestamp env (sym_id dbSymbol) iv w1 of
             (Inl e, w2) \<Rightarrow> Some (Inl e, w2)
           | (Inr latest, w2) \<Rightarrow>
               (case nextStartTime iv latest w2 of
                  (Inl e, w3) \<Rightarrow> Some (Inl e, w3)
                | (Inr startTime, w3) \<Rightarrow>
                    (case fetchKlines env
                            \<lparr>opt_symbol = symbol, opt_interval = iv,
                             opt_limit = Some (if truthy latest then 1000 else 1000),
                             opt_startTime = startTime, opt_endTime = None\<rparr> w3 of
                       None \<Rightarrow> None
                     | Some (Inl e, w4) \<Rightarrow> Some (Inl e, w4)
                     | Some (Inr binanceKlines, w4) \<Rightarrow>
                         Some (storePage env symbol dbSymbol iv latest binanceKlines w4)))))"

text \<open>
  The \<^verbatim>\<open>catch\<close> turns a thrown error into a result; a call that never leaves
  \<open>fetchKlines\<close> never returns.
\<close>

definition syncCandlesticks ::
  "env \<Rightarrow> string \<Rightarrow> string \<Rightarrow> world \<Rightarrow> (sync_result \<times> world) option" where
  "syncCandlesticks env symbol iv w =
     (case tryBlock env symbol iv w of
        None \<Rightarrow> None
      | Some (Inr result, w1) \<Rightarrow> Some (result, w1)
      | Some (Inl (Error m), w1) \<Rightarrow>
          Some (\<lparr>success = False, message = ''Sync failed: '' @ m,
                 candlesticksAdded = 0, latestTimestamp = None\<rparr>,
                logLine (LogSyncFailed symbol iv m) w1))"

subsection \<open>syncMultipleSymbols\<close>





subsection \<open>Notions used to state the properties\<close>

text \<open>The key of a stored row and of a bar about to be stored.\<close>

definition keyOf :: "candlestick \<Rightarrow> nat \<times> string \<times> int" where
  "keyOf c = (symbolId (cs_data c), interval (cs_data c), openTime (cs_data c))"


text \<open>Some row of the table has the key of the bar: what \<^verbatim>\<open>findExisting\<close> tests.\<close>

definition stored :: "candlestick list \<Rightarrow> new_candlestick \<Rightarrow> bool" where
  "stored rows c =
     (find (\<lambda>r. matches (symbolId c) (interval c) r \<and> openTime (cs_data r) = openTime c) rows
        \<noteq> None)"

text \<open>The open times stored for a symbol id and an interval, in table order.\<close>

definition storedTimes :: "world \<Rightarrow> nat \<Rightarrow> string \<Rightarrow> int list" where
  "storedTimes w sid iv =
     map (\<lambda>c. openTime (cs_data c)) (filter (matches sid iv) (candlesticksT w))"

text \<open>
  The id of the symbol row a call for the code works with: that of the row the table has,
  or the next serial id when the row is still to be created.
\<close>

definition resolvedId :: "world \<Rightarrow> string \<Rightarrow> nat" where
  "resolvedId w code =
     (case find (\<lambda>r. sym_symbol r = code) (symbolsT w) of
        Some row \<Rightarrow> sym_id row
      | None \<Rightarrow> symbolsSeq w + 1)"

text \<open>The symbol row a first sync of the code creates.\<close>

definition createdRow :: "world \<Rightarrow> string \<Rightarrow> symbol_row" where
  "createdRow w code =
     \<lparr>sym_id = symbolsSeq w + 1, sym_symbol = code, sym_baseAsset = fst (parseSymbol code),
      sym_quoteAsset = snd (parseSymbol code), sym_isActive = True\<rparr>"

text \<open>The symbols table is untouched, or the row of a code it did not have was appended.\<close>

definition symbolStep :: "world \<Rightarrow> string \<Rightarrow> world \<Rightarrow> bool" where
  "symbolStep w code w' =
     (symbolsT w' = symbolsT w \<and> symbolsSeq w' = symbolsSeq w
      \<or> find (\<lambda>r. sym_symbol r = code) (symbolsT w) = None
        \<and> symbolsT w' = symbolsT w @ [createdRow w code]
        \<and> symbolsSeq w' = symbolsSeq w + 1)"

text \<open>The options of the fetch a sync makes, and the query they become.\<close>

definition syncOptions :: "string \<Rightarrow> string \<Rightarrow> int option \<Rightarrow> options" where
  "syncOptions code iv start =
     \<lparr>opt_symbol = code, opt_interval = iv, opt_limit = Some 1000,
      opt_startTime = start, opt_endTime = None\<rparr>"

text \<open>
  The start time a call passes to the fetch when the cursor it read is \<open>latest\<close> and it
  gets as far as the fetch.
\<close>

definition startFor :: "string \<Rightarrow> int option \<Rightarrow> int option \<Rightarrow> bool" where
  "startFor iv latest start =
     (case latest of
        None \<Rightarrow> start = None
      | Some t \<Rightarrow>
          if t = 0 then start = None
          else (case getIntervalMs iv of
                  JSNumber ms \<Rightarrow> validDate (t + ms) \<and> start = Some (t + ms)
                | JSInherited \<Rightarrow> False))"

text \<open>The bars of a page that a call for symbol id \<open>sid\<close> finds no row for.\<close>

definition unseen :: "world \<Rightarrow> nat \<Rightarrow> string \<Rightarrow> kline list \<Rightarrow> new_candlestick list" where
  "unseen w sid iv page =
     filter (\<lambda>c. \<not> stored (candlesticksT w) c) (map (toCandlestick sid iv) page)"

text \<open>The calls of \<open>syncCandlesticks\<close> a log shows, by their first line.\<close>

fun starts :: "log_event list \<Rightarrow> (string \<times> string) list" where
  "starts [] = []"
| "starts (LogStarting code iv # evs) = (code, iv) # starts evs"
| "starts (ev # evs) = starts evs"

text \<open>The two tables and their sequences are the same in both worlds.\<close>

definition sameStore :: "world \<Rightarrow> world \<Rightarrow> bool" where
  "sameStore w w' =
     (symbolsT w' = symbolsT w \<and> candlesticksT w' = candlesticksT w
      \<and> symbolsSeq w' = symbolsSeq w \<and> candlesticksSeq w' = candlesticksSeq w)"

text \<open>The exchanges a call added to the record of HTTP traffic.\<close>

definition newExchanges :: "world \<Rightarrow> world \<Rightarrow> (params \<times> http_response) list" where
  "newExchanges w w' = drop (length (httpLog w)) (httpLog w')"

text \<open>
  The \<open>k\<close> exchanges of a request \<open>p\<close> that is sent again and again, the first of them
  after \<open>n\<close> earlier requests.
\<close>

fun requests :: "env \<Rightarrow> params \<Rightarrow> nat \<Rightarrow> nat \<Rightarrow> (params \<times> http_response) list" where
  "requests env p n 0 = []"
| "requests env p n (Suc k) = (p, exchange env n p) # requests env p (Suc n) k"

text \<open>What \<open>fetchKlines\<close> makes of an answer that ends its retries.\<close>

definition outcome :: "http_response \<Rightarrow> error + kline list" where
  "outcome r =
     (case r of
        Resolved data \<Rightarrow> Inr data
      | Rejected status msg emsg \<Rightarrow> Inl (Error (apiErrorMessage msg emsg)))"

text \<open>A rejection with status 429.\<close>

definition throttled :: "http_response \<Rightarrow> bool" where
  "throttled r = (case r of Resolved _ \<Rightarrow> False | Rejected status _ _ \<Rightarrow> status = Some 429)"

text \<open>
  \<open>y\<close> is what \<open>fetchKlines\<close> returns from \<open>w\<close> when its first \<open>k\<close> requests are
  answered with 429 and the next one is not.
\<close>

definition answeredAfter ::
  "env \<Rightarrow> options \<Rightarrow> world \<Rightarrow> nat \<Rightarrow> (error + kline list) \<times> world \<Rightarrow> bool" where
  "answeredAfter env opts w k y =
     (y = (outcome (exchange env (length (httpLog w) + k) (buildParams opts)),
           w\<lparr>httpLog := httpLog w @ requests env (buildParams opts) (length (httpLog w)) (Suc k),
              logged := logged w @ replicate k LogRateLimit,
              slept := slept w + 1000 * k\<rparr>)
      \<and> \<not> throttled (exchange env (length (httpLog w) + k) (buildParams opts))
      \<and> (\<forall>j<k. throttled (exchange env (length (httpLog w) + j) (buildParams opts))))"

text \<open>No database call numbered from \<open>a\<close> up to but not including \<open>b\<close> throws.\<close>

definition noFault :: "env \<Rightarrow> nat \<Rightarrow> nat \<Rightarrow> bool" where
  "noFault env a b = (\<forall>n. a \<le> n \<and> n < b \<longrightarrow> dbFault env n = None)"

definition errorMessage :: "error \<Rightarrow> string" where
  "errorMessage e = (case e of Error m \<Rightarrow> m)"

text \<open>The database before anything was stored, and nothing done yet.\<close>

definition emptyWorld :: world where
  "emptyWorld =
     \<lparr>symbolsT = [], candlesticksT = [], symbolsSeq = 0, candlesticksSeq = 0,
      dbCalls = 0, httpLog = [], slept = 0, logged = []\<rparr>"




subsection \<open>Concrete collaborators for the examples\<close>

text \<open>A bar that opens at \<open>t\<close>.\<close>

definition bar :: "int \<Rightarrow> kline" where
  "bar t =
     \<lparr>k_openTime = t, k_open = ''1.0'', k_high = ''2.0'', k_low = ''0.5'', k_close = ''1.5'',
      k_volume = ''10'', k_closeTime = t + 59999, k_quoteAssetVolume = ''15'',
      k_numberOfTrades = 3, k_takerBuyBase = ''4'', k_takerBuyQuote = ''6'',
      k_ignore = ''0''\<rparr>"

text \<open>A database that never throws and an exchange that answers by request number.\<close>

definition serving :: "(nat \<Rightarrow> http_response) \<Rightarrow> env" where
  "serving answers = \<lparr>dbFault = (\<lambda>n. None), exchange = (\<lambda>n p. answers n)\<rparr>"

definition tooManyRequests :: http_response where
  "tooManyRequests = Rejected (Some 429) None ''Request failed with status code 429''"

text \<open>A database whose only row for BTCUSDT at 1m opens at \<open>t\<close>.\<close>

definition primed :: "string \<Rightarrow> int \<Rightarrow> world" where
  "primed iv t =
     \<lparr>symbolsT = [\<lparr>sym_id = 1, sym_symbol = ''BTCUSDT'', sym_baseAsset = ''BTC'',
                   sym_quoteAsset = ''USDT'', sym_isActive = True\<rparr>],
      candlesticksT = [\<lparr>cs_id = 1, cs_data = toCandlestick 1 iv (bar t)\<rparr>],
      symbolsSeq = 1, candlesticksSeq = 1, dbCalls = 0, httpLog = [], slept = 0,
      logged = []\<rparr>"

section \<open>Properties\<close>

lemma endsWith_suffix: "endsWith s q = suffix q s"
proof
  assume "endsWith s q"
  then have "s = take (length s - length q) s @ q"
    by (metis append_take_drop_id endsWith_def)
  then show "suffix q s"
    by (metis suffixI)
next
  assume "suffix q s"
  then obtain zs where "s = zs @ q"
    by (auto simp: suffix_def)
  then show "endsWith s q"
    by (simp add: endsWith_def)
qed

lemma parseLoop_find:
  "parseLoop qs s =
     map_option (\<lambda>q. (take (length s - length q) s, q)) (find (\<lambda>q. suffix q s) qs)"
  by (induction qs) (simp_all add: endsWith_suffix sliceHead_def)

text \<open>
  C8: for every symbol code the classification computed by \<open>parseSymbol\<close> is the greedy
  suffix match against USDT, BUSD, BTC, ETH, BNB, USDC, USD in that order (first match
  wins, the base is the remaining prefix), then the last four characters for an unmatched
  code longer than four, then \<open>UNKNOWN\<close> with the whole code as base; and the three
  examples of the specification evaluate as stated.
\<close>

theorem parseSymbol_classification:
  "parseSymbol code = classify_spec code
   \<and> parseSymbol ''BTCUSDT'' = (''BTC'', ''USDT'')
   \<and> parseSymbol ''ETHBTC'' = (''ETH'', ''BTC'')
   \<and> parseSymbol ''ABC'' = (''ABC'', ''UNKNOWN'')"
proof -
  have "parseSymbol code = classify_spec code"
    unfolding parseSymbol_def classify_spec_def commonQuotes_def parseLoop_find
    by (simp add: sliceHead_def sliceTail_def split: option.split)
  moreover have "parseSymbol ''BTCUSDT'' = (''BTC'', ''USDT'')"
    by (simp add: parseSymbol_def commonQuotes_def endsWith_def sliceHead_def)
  moreover have "parseSymbol ''ETHBTC'' = (''ETH'', ''BTC'')"
    by (simp add: parseSymbol_def commonQuotes_def endsWith_def sliceHead_def)
  moreover have "parseSymbol ''ABC'' = (''ABC'', ''UNKNOWN'')"
    by (simp add: parseSymbol_def commonQuotes_def endsWith_def sliceHead_def)
  ultimately show ?thesis by simp
qed

subsection \<open>The steps of a call\<close>


lemma dbCall_Inr:
  "dbCall env run w = (Inr x, w') \<Longrightarrow>
     dbFault env (dbCalls w) = None \<and> run (w\<lparr>dbCalls := dbCalls w + 1\<rparr>) = (x, w')"
  by (auto simp: dbCall_def split: option.splits prod.splits)

lemma dbCall_Inl:
  "dbCall env run w = (Inl e, w') \<Longrightarrow>
     dbFault env (dbCalls w) = Some (errorMessage e) \<and> w' = w\<lparr>dbCalls := dbCalls w + 1\<rparr>"
  by (auto simp: dbCall_def errorMessage_def split: option.splits prod.splits)

lemma noFault_step:
  "dbFault env a = None \<Longrightarrow> noFault env (Suc a) b \<Longrightarrow> noFault env a b"
  unfolding noFault_def by (metis Suc_leI le_neq_implies_less)

lemma noFault_empty: "noFault env a a"
  unfolding noFault_def by auto

lemma noFault_trans:
  "noFault env a b \<Longrightarrow> noFault env b c \<Longrightarrow> noFault env a c"
  unfolding noFault_def by (metis not_le_imp_less)

lemma findBySymbol_Inr:
  "symbols_findBySymbol env s w = (Inr x, w') \<Longrightarrow>
     dbFault env (dbCalls w) = None \<and> x = find (\<lambda>r. sym_symbol r = s) (symbolsT w)
     \<and> w' = w\<lparr>dbCalls := dbCalls w + 1\<rparr>"
  unfolding symbols_findBySymbol_def by (auto dest!: dbCall_Inr)

lemma findBySymbol_Inl:
  "symbols_findBySymbol env s w = (Inl e, w') \<Longrightarrow>
     dbFault env (dbCalls w) = Some (errorMessage e) \<and> w' = w\<lparr>dbCalls := dbCalls w + 1\<rparr>"
  unfolding symbols_findBySymbol_def by (rule dbCall_Inl)

lemma create_Inr:
  "symbols_create env s b q a w = (Inr row, w') \<Longrightarrow>
     dbFault env (dbCalls w) = None
     \<and> row = \<lparr>sym_id = symbolsSeq w + 1, sym_symbol = s, sym_baseAsset = b,
               sym_quoteAsset = q, sym_isActive = a\<rparr>
     \<and> w' = w\<lparr>dbCalls := dbCalls w + 1, symbolsT := symbolsT w @ [row],
              symbolsSeq := symbolsSeq w + 1\<rparr>"
  unfolding symbols_create_def by (auto dest!: dbCall_Inr simp: Let_def)

lemma create_Inl:
  "symbols_create env s b q a w = (Inl e, w') \<Longrightarrow>
     dbFault env (dbCalls w) = Some (errorMessage e) \<and> w' = w\<lparr>dbCalls := dbCalls w + 1\<rparr>"
  unfolding symbols_create_def by (rule dbCall_Inl)

lemma findExisting_Inr:
  "candlesticks_findExisting env sid iv t w = (Inr x, w') \<Longrightarrow>
     dbFault env (dbCalls w) = None
     \<and> x = find (\<lambda>c. matches sid iv c \<and> openTime (cs_data c) = t) (candlesticksT w)
     \<and> w' = w\<lparr>dbCalls := dbCalls w + 1\<rparr>"
  unfolding candlesticks_findExisting_def by (auto dest!: dbCall_Inr)

lemma findExisting_Inl:
  "candlesticks_findExisting env sid iv t w = (Inl e, w') \<Longrightarrow>
     dbFault env (dbCalls w) = Some (errorMessage e) \<and> w' = w\<lparr>dbCalls := dbCalls w + 1\<rparr>"
  unfolding candlesticks_findExisting_def by (rule dbCall_Inl)

lemma getLatest_Inr:
  "candlesticks_getLatestTimestamp env sid iv w = (Inr x, w') \<Longrightarrow>
     dbFault env (dbCalls w) = None \<and> x = latestOf (storedTimes w sid iv)
     \<and> w' = w\<lparr>dbCalls := dbCalls w + 1\<rparr>"
  unfolding candlesticks_getLatestTimestamp_def storedTimes_def by (auto dest!: dbCall_Inr)

lemma getLatest_Inl:
  "candlesticks_getLatestTimestamp env sid iv w = (Inl e, w') \<Longrightarrow>
     dbFault env (dbCalls w) = Some (errorMessage e) \<and> w' = w\<lparr>dbCalls := dbCalls w + 1\<rparr>"
  unfolding candlesticks_getLatestTimestamp_def by (rule dbCall_Inl)

lemma createMany_Inr:
  "candlesticks_createMany env data w = (Inr rows, w') \<Longrightarrow> data \<noteq> [] \<Longrightarrow>
     dbFault env (dbCalls w) = None \<and> rows = assignIds (candlesticksSeq w) data
     \<and> w' = w\<lparr>dbCalls := dbCalls w + 1, candlesticksT := candlesticksT w @ rows,
              candlesticksSeq := candlesticksSeq w + length data\<rparr>"
  unfolding candlesticks_createMany_def by (auto dest!: dbCall_Inr)

lemma createMany_Inl:
  "candlesticks_createMany env data w = (Inl e, w') \<Longrightarrow>
     dbFault env (dbCalls w) = Some (errorMessage e) \<and> w' = w\<lparr>dbCalls := dbCalls w + 1\<rparr>"
  unfolding candlesticks_createMany_def by (auto dest!: dbCall_Inl split: if_splits)

lemma assignIds_data: "map cs_data (assignIds n ds) = ds"
  by (induction ds arbitrary: n) simp_all

lemma assignIds_length: "length (assignIds n ds) = length ds"
  by (induction ds arbitrary: n) simp_all

lemma stored_iff:
  "stored rows c = ((symbolId c, interval c, openTime c) \<in> keyOf ` set rows)"
  unfolding stored_def matches_def keyOf_def
  by (induction rows) auto

lemma filterNew_Inr:
  "filterNew env cs acc w = (Inr new, w') \<Longrightarrow>
     new = acc @ filter (\<lambda>c. \<not> stored (candlesticksT w) c) cs
     \<and> w' = w\<lparr>dbCalls := dbCalls w + length cs\<rparr>
     \<and> noFault env (dbCalls w) (dbCalls w + length cs)"
proof (induction cs arbitrary: acc w)
  case Nil
  then show ?case by (simp add: noFault_empty)
next
  case (Cons c cs)
  obtain r w1 where f: "candlesticks_findExisting env (symbolId c) (interval c) (openTime c) w = (r, w1)"
    by (cases "candlesticks_findExisting env (symbolId c) (interval c) (openTime c) w")
  show ?case
  proof (cases r)
    case (Inl e)
    with f Cons.prems show ?thesis by simp
  next
    case (Inr ex)
    with f have st: "dbFault env (dbCalls w) = None"
      "ex = find (\<lambda>r. matches (symbolId c) (interval c) r \<and> openTime (cs_data r) = openTime c) (candlesticksT w)"
      "w1 = w\<lparr>dbCalls := dbCalls w + 1\<rparr>"
      by (auto dest: findExisting_Inr)
    from Cons.prems f Inr
    have rec: "filterNew env cs (if ex = None then acc @ [c] else acc) w1 = (Inr new, w')"
      by simp
    note ih = Cons.IH [OF rec]
    have "noFault env (dbCalls w) (dbCalls w + length (c # cs))"
      using ih st by (auto intro: noFault_step)
    moreover have "new = acc @ filter (\<lambda>c. \<not> stored (candlesticksT w) c) (c # cs)"
      using ih st by (auto simp: stored_def)
    moreover have "w' = w\<lparr>dbCalls := dbCalls w + length (c # cs)\<rparr>"
      using ih st by simp
    ultimately show ?thesis by blast
  qed
qed

lemma filterNew_Inl:
  "filterNew env cs acc w = (Inl e, w') \<Longrightarrow>
     \<exists>k. w' = w\<lparr>dbCalls := dbCalls w + k\<rparr>"
proof (induction cs arbitrary: acc w)
  case Nil
  then show ?case by simp
next
  case (Cons c cs)
  obtain r w1 where f: "candlesticks_findExisting env (symbolId c) (interval c) (openTime c) w = (r, w1)"
    by (cases "candlesticks_findExisting env (symbolId c) (interval c) (openTime c) w")
  show ?case
  proof (cases r)
    case (Inl e')
    with f Cons.prems have "w' = w\<lparr>dbCalls := dbCalls w + 1\<rparr>"
      by (auto dest: findExisting_Inl)
    then show ?thesis by blast
  next
    case (Inr ex)
    with f have st: "w1 = w\<lparr>dbCalls := dbCalls w + 1\<rparr>"
      by (auto dest: findExisting_Inr)
    from Cons.prems f Inr
    have "filterNew env cs (if ex = None then acc @ [c] else acc) w1 = (Inl e, w')"
      by simp
    from Cons.IH [OF this] obtain k where "w' = w1\<lparr>dbCalls := dbCalls w1 + k\<rparr>" by blast
    with st have "w' = w\<lparr>dbCalls := dbCalls w + (k + 1)\<rparr>" by simp
    then show ?thesis by blast
  qed
qed


lemma requests_fst: "e \<in> set (requests env p n k) \<Longrightarrow> fst e = p"
  by (induction k arbitrary: n) auto

lemma requests_last: "last (requests env p n (Suc k)) = (p, exchange env (n + k) p)"
  by (induction k arbitrary: n) simp_all


lemma fetchKlines_resolved:
  "exchange env (length (httpLog w)) (buildParams opts) = Resolved data \<Longrightarrow>
     fetchKlines env opts w =
       Some (Inr data, w\<lparr>httpLog := httpLog w @ [(buildParams opts, Resolved data)]\<rparr>)"
  by (subst fetchKlines.simps) (simp add: httpGet_def Let_def)

lemma fetchKlines_rejected:
  "exchange env (length (httpLog w)) (buildParams opts) = Rejected status msg emsg \<Longrightarrow>
   status \<noteq> Some 429 \<Longrightarrow>
     fetchKlines env opts w =
       Some (Inl (Error (apiErrorMessage msg emsg)),
             w\<lparr>httpLog := httpLog w @ [(buildParams opts, Rejected status msg emsg)]\<rparr>)"
  by (subst fetchKlines.simps) (simp add: httpGet_def Let_def)

lemma fetchKlines_throttled:
  "exchange env (length (httpLog w)) (buildParams opts) = Rejected (Some 429) msg emsg \<Longrightarrow>
     fetchKlines env opts w =
       fetchKlines env opts
         (w\<lparr>httpLog := httpLog w @ [(buildParams opts, Rejected (Some 429) msg emsg)],
            logged := logged w @ [LogRateLimit], slept := slept w + 1000\<rparr>)"
  by (subst fetchKlines.simps) (simp add: httpGet_def Let_def logLine_def)

lemma fetchKlines_answered:
  assumes "fetchKlines env opts w = Some y"
  shows "\<exists>k. answeredAfter env opts w k y"
proof (rule fetchKlines.raw_induct
    [where P = "\<lambda>env opts w y. \<exists>k. answeredAfter env opts w k y", OF _ assms])
  fix f env opts w y
  assume 1: "\<And>env opts w y. f env opts w = Some y \<Longrightarrow> \<exists>k. answeredAfter env opts w k y"
    "(case httpGet env (buildParams opts) w of
        (Resolved data, w1) \<Rightarrow> Some (Inr data, w1)
      | (Rejected status msg emsg, w1) \<Rightarrow>
          if status = Some 429
          then f env opts ((logLine LogRateLimit w1)\<lparr>slept := slept w1 + 1000\<rparr>)
          else Some (Inl (Error (apiErrorMessage msg emsg)), w1)) = Some y"
  let ?p = "buildParams opts" and ?n = "length (httpLog w)"
  show "\<exists>k. answeredAfter env opts w k y"
  proof (cases "exchange env ?n ?p")
    case (Resolved data)
    with 1(2) have "y = (Inr data, w\<lparr>httpLog := httpLog w @ [(?p, Resolved data)]\<rparr>)"
      by (simp add: httpGet_def Let_def)
    with Resolved have "answeredAfter env opts w 0 y"
      by (simp add: answeredAfter_def outcome_def throttled_def)
    then show ?thesis ..
  next
    case (Rejected status msg emsg)
    show ?thesis
    proof (cases "status = Some 429")
      case False
      with Rejected 1(2)
      have "y = (Inl (Error (apiErrorMessage msg emsg)),
                 w\<lparr>httpLog := httpLog w @ [(?p, Rejected status msg emsg)]\<rparr>)"
        by (simp add: httpGet_def Let_def)
      with Rejected False have "answeredAfter env opts w 0 y"
        by (simp add: answeredAfter_def outcome_def throttled_def)
      then show ?thesis ..
    next
      case True
      define w2 where "w2 = w\<lparr>httpLog := httpLog w @ [(?p, Rejected status msg emsg)],
            logged := logged w @ [LogRateLimit], slept := slept w + 1000\<rparr>"
      from True Rejected 1(2) have "f env opts w2 = Some y"
        by (simp add: httpGet_def Let_def logLine_def w2_def)
      from 1(1) [OF this] obtain k where k: "answeredAfter env opts w2 k y" ..
      have len: "length (httpLog w2) = Suc ?n" by (simp add: w2_def)
      have thr: "throttled (exchange env ?n ?p)"
        using True Rejected by (simp add: throttled_def)
      have "\<forall>j<Suc k. throttled (exchange env (?n + j) ?p)"
      proof (intro allI impI)
        fix j assume "j < Suc k"
        then show "throttled (exchange env (?n + j) ?p)"
          using thr k len by (cases j) (auto simp: answeredAfter_def)
      qed
      moreover have "\<not> throttled (exchange env (?n + Suc k) ?p)"
        using k len by (simp add: answeredAfter_def)
      moreover have "y = (outcome (exchange env (?n + Suc k) ?p),
                 w\<lparr>httpLog := httpLog w @ requests env ?p ?n (Suc (Suc k)),
                    logged := logged w @ replicate (Suc k) LogRateLimit,
                    slept := slept w + 1000 * Suc k\<rparr>)"
        using k len Rejected by (simp add: answeredAfter_def w2_def replicate_append_same)
      ultimately have "answeredAfter env opts w (Suc k) y"
        unfolding answeredAfter_def by blast
      then show ?thesis ..
    qed
  qed
qed

lemma fetchKlines_Some:
  assumes "fetchKlines env opts w = Some y"
  shows "\<exists>k. y = (outcome (exchange env (length (httpLog w) + k) (buildParams opts)),
                 w\<lparr>httpLog := httpLog w @ requests env (buildParams opts) (length (httpLog w)) (Suc k),
                    logged := logged w @ replicate k LogRateLimit,
                    slept := slept w + 1000 * k\<rparr>)
             \<and> \<not> throttled (exchange env (length (httpLog w) + k) (buildParams opts))
             \<and> (\<forall>j<k. throttled (exchange env (length (httpLog w) + j) (buildParams opts)))"
  using fetchKlines_answered [OF assms] unfolding answeredAfter_def .

lemma fetchKlines_returns:
  "\<not> throttled (exchange env (length (httpLog w) + k) (buildParams opts)) \<Longrightarrow>
     \<exists>y. fetchKlines env opts w = Some y"
proof (induction k arbitrary: w)
  case 0
  then show ?case
    by (cases "exchange env (length (httpLog w)) (buildParams opts)")
       (auto simp: throttled_def fetchKlines_resolved fetchKlines_rejected)
next
  case (Suc k)
  show ?case
  proof (cases "exchange env (length (httpLog w)) (buildParams opts)")
    case (Resolved data)
    then show ?thesis by (simp add: fetchKlines_resolved)
  next
    case (Rejected status msg emsg)
    show ?thesis
    proof (cases "status = Some 429")
      case False
      with Rejected show ?thesis by (simp add: fetchKlines_rejected)
    next
      case True
      let ?w2 = "w\<lparr>httpLog := httpLog w @ [(buildParams opts, Rejected (Some 429) msg emsg)],
            logged := logged w @ [LogRateLimit], slept := slept w + 1000\<rparr>"
      have "\<not> throttled (exchange env (length (httpLog ?w2) + k) (buildParams opts))"
        using Suc.prems by simp
      from Suc.IH [OF this] show ?thesis
        using True Rejected by (simp add: fetchKlines_throttled)
    qed
  qed
qed


lemma resolveSymbol_cases [consumes 1, case_names findFault found createFault created]:
  assumes "resolveSymbol env s w = (x, w')"
  obtains
    e where "x = Inl e" "dbFault env (dbCalls w) = Some (errorMessage e)"
      "w' = w\<lparr>dbCalls := dbCalls w + 1\<rparr>"
  | row where "x = Inr row" "find (\<lambda>r. sym_symbol r = s) (symbolsT w) = Some row"
      "dbFault env (dbCalls w) = None" "w' = w\<lparr>dbCalls := dbCalls w + 1\<rparr>"
  | e where "x = Inl e" "find (\<lambda>r. sym_symbol r = s) (symbolsT w) = None"
      "dbFault env (dbCalls w) = None" "dbFault env (dbCalls w + 1) = Some (errorMessage e)"
      "w' = w\<lparr>dbCalls := dbCalls w + 2\<rparr>"
  | row where "x = Inr row" "find (\<lambda>r. sym_symbol r = s) (symbolsT w) = None"
      "dbFault env (dbCalls w) = None" "dbFault env (dbCalls w + 1) = None"
      "row = \<lparr>sym_id = symbolsSeq w + 1, sym_symbol = s,
               sym_baseAsset = fst (parseSymbol s), sym_quoteAsset = snd (parseSymbol s),
               sym_isActive = True\<rparr>"
      "w' = w\<lparr>dbCalls := dbCalls w + 2, symbolsT := symbolsT w @ [row],
              symbolsSeq := symbolsSeq w + 1,
              logged := logged w @ [LogCreatedSymbol s]\<rparr>"
proof -
  obtain f w1 where f: "symbols_findBySymbol env s w = (f, w1)"
    by (cases "symbols_findBySymbol env s w")
  show thesis
  proof (cases f)
    case (Inl e)
    with f assms have "x = Inl e" "w' = w1" by (simp_all add: resolveSymbol_def)
    with f Inl that(1) show thesis by (auto dest: findBySymbol_Inl)
  next
    case (Inr found)
    with f have st: "dbFault env (dbCalls w) = None"
      "found = find (\<lambda>r. sym_symbol r = s) (symbolsT w)" "w1 = w\<lparr>dbCalls := dbCalls w + 1\<rparr>"
      by (auto dest: findBySymbol_Inr)
    show thesis
    proof (cases found)
      case (Some row)
      with f Inr assms have "x = Inr row" "w' = w1" by (simp_all add: resolveSymbol_def)
      with st Some that(2) show thesis by auto
    next
      case None
      obtain c w2 where c: "symbols_create env s (fst (parseSymbol s)) (snd (parseSymbol s)) True w1 = (c, w2)"
        by (cases "symbols_create env s (fst (parseSymbol s)) (snd (parseSymbol s)) True w1")
      show thesis
      proof (cases c)
        case (Inl e)
        with c f Inr None assms have "x = Inl e" "w' = w2"
          by (simp_all add: resolveSymbol_def split: prod.splits)
        moreover from c Inl st have "dbFault env (dbCalls w + 1) = Some (errorMessage e)"
          "w2 = w\<lparr>dbCalls := dbCalls w + 2\<rparr>"
          by (auto dest: create_Inl)
        ultimately show thesis using that(3) st None by auto
      next
        case (Inr row)
        with c f \<open>f = Inr found\<close> None assms
        have "x = Inr row" "w' = logLine (LogCreatedSymbol s) w2"
          by (simp_all add: resolveSymbol_def split: prod.splits)
        moreover from c Inr st have "dbFault env (dbCalls w + 1) = None"
          "row = \<lparr>sym_id = symbolsSeq w + 1, sym_symbol = s,
               sym_baseAsset = fst (parseSymbol s), sym_quoteAsset = snd (parseSymbol s),
               sym_isActive = True\<rparr>"
          "w2 = w\<lparr>dbCalls := dbCalls w + 2, symbolsT := symbolsT w @ [row],
              symbolsSeq := symbolsSeq w + 1\<rparr>"
          by (auto dest!: create_Inr)
        ultimately show thesis using that(4) st None by (auto simp: logLine_def)
      qed
    qed
  qed
qed

lemma insertNew_cases [consumes 1, case_names nothing insertFault inserted]:
  assumes "insertNew env s iv new w = (x, w')"
  obtains
    "new = []" "x = Inr []" "w' = w"
  | e where "new \<noteq> []" "x = Inl e" "dbFault env (dbCalls w) = Some (errorMessage e)"
      "w' = w\<lparr>dbCalls := dbCalls w + 1\<rparr>"
  | "new \<noteq> []" "x = Inr (assignIds (candlesticksSeq w) new)"
      "dbFault env (dbCalls w) = None"
      "w' = w\<lparr>dbCalls := dbCalls w + 1,
              candlesticksT := candlesticksT w @ assignIds (candlesticksSeq w) new,
              candlesticksSeq := candlesticksSeq w + length new,
              logged := logged w @ [LogInserted (length new) s iv]\<rparr>"
proof (cases "new = []")
  case True
  with assms that(1) show thesis by (simp add: insertNew_def)
next
  case False
  obtain c w1 where c: "candlesticks_createMany env new w = (c, w1)"
    by (cases "candlesticks_createMany env new w")
  show thesis
  proof (cases c)
    case (Inl e)
    with c False assms have "x = Inl e" "w' = w1" by (simp_all add: insertNew_def)
    with c Inl False that(2) show thesis by (auto dest: createMany_Inl)
  next
    case (Inr rows)
    with c False assms have "x = Inr rows" "w' = logLine (LogInserted (length rows) s iv) w1"
      by (simp_all add: insertNew_def)
    moreover from c Inr False have "dbFault env (dbCalls w) = None"
      "rows = assignIds (candlesticksSeq w) new"
      "w1 = w\<lparr>dbCalls := dbCalls w + 1, candlesticksT := candlesticksT w @ rows,
              candlesticksSeq := candlesticksSeq w + length new\<rparr>"
      by (auto dest!: createMany_Inr)
    ultimately show thesis using that(3) False
      by (auto simp: logLine_def assignIds_length)
  qed
qed

declare string_of_nat.simps [simp del]

lemma toCandlestick_times [simp]:
  "map (openTime \<circ> toCandlestick sid iv) page = map k_openTime page"
  by (simp add: toCandlestick_def)

lemma storePage_cases [consumes 1, case_names empty checkFault insertFault kept]:
  assumes "storePage env s row iv latest page w = (x, w')"
  obtains
    "page = []"
    "x = Inr \<lparr>success = True, message = ''No new candlesticks to sync'',
              candlesticksAdded = 0, latestTimestamp = latest\<rparr>"
    "w' = w"
  | e k where "page \<noteq> []" "x = Inl e" "w' = w\<lparr>dbCalls := dbCalls w + k\<rparr>"
  | e where "page \<noteq> []" "x = Inl e" "w' = w\<lparr>dbCalls := dbCalls w + length page + 1\<rparr>"
  | new where "page \<noteq> []"
      "new = filter (\<lambda>c. \<not> stored (candlesticksT w) c) (map (toCandlestick (sym_id row) iv) page)"
      "x = Inr \<lparr>success = True,
                message = ''Successfully synced '' @ string_of_nat (length new) @ '' candlesticks'',
                candlesticksAdded = length new,
                latestTimestamp = newCursor (map k_openTime page) latest\<rparr>"
      "noFault env (dbCalls w) (dbCalls w + length page + (if new = [] then 0 else 1))"
      "w' = (if new = [] then w\<lparr>dbCalls := dbCalls w + length page\<rparr>
             else w\<lparr>dbCalls := dbCalls w + length page + 1,
                    candlesticksT := candlesticksT w @ assignIds (candlesticksSeq w) new,
                    candlesticksSeq := candlesticksSeq w + length new,
                    logged := logged w @ [LogInserted (length new) s iv]\<rparr>)"
proof (cases "page = []")
  case True
  with assms that(1) show thesis by (simp add: storePage_def)
next
  case False
  let ?cs = "map (toCandlestick (sym_id row) iv) page"
  obtain f w1 where f: "filterNew env ?cs [] w = (f, w1)"
    by (cases "filterNew env ?cs [] w")
  show thesis
  proof (cases f)
    case (Inl e)
    with f False assms have "x = Inl e" "w' = w1" by (simp_all add: storePage_def)
    with f Inl False that(2) show thesis by (auto dest: filterNew_Inl)
  next
    case (Inr new)
    with f have st: "new = filter (\<lambda>c. \<not> stored (candlesticksT w) c) ?cs"
      "w1 = w\<lparr>dbCalls := dbCalls w + length page\<rparr>"
      "noFault env (dbCalls w) (dbCalls w + length page)"
      by (auto dest: filterNew_Inr)
    obtain i w2 where i: "insertNew env s iv new w1 = (i, w2)"
      by (cases "insertNew env s iv new w1")
    let ?x = "Inr \<lparr>success = True,
                message = ''Successfully synced '' @ string_of_nat (length new) @ '' candlesticks'',
                candlesticksAdded = length new,
                latestTimestamp = newCursor (map k_openTime page) latest\<rparr>"
    let ?nf = "noFault env (dbCalls w) (dbCalls w + length page + (if new = [] then 0 else 1))"
    let ?w = "if new = [] then w\<lparr>dbCalls := dbCalls w + length page\<rparr>
             else w\<lparr>dbCalls := dbCalls w + length page + 1,
                    candlesticksT := candlesticksT w @ assignIds (candlesticksSeq w) new,
                    candlesticksSeq := candlesticksSeq w + length new,
                    logged := logged w @ [LogInserted (length new) s iv]\<rparr>"
    from i show thesis
    proof (cases rule: insertNew_cases)
      case nothing
      note n = this
      from f Inr i False assms n have x: "x = ?x" and "w' = w1"
        by (simp_all add: storePage_def)
      then have w: "w' = ?w" using st(2) n(1) by simp
      have nf: ?nf using st(3) n(1) by simp
      show thesis by (rule that(4) [OF False st(1) x nf w])
    next
      case (insertFault e)
      with f Inr i False assms have "x = Inl e" "w' = w2" by (simp_all add: storePage_def)
      with insertFault st False that(3) show thesis by simp
    next
      case inserted
      note n = this
      from f Inr i False assms n have x: "x = ?x" and "w' = w2"
        by (simp_all add: storePage_def assignIds_length)
      then have w: "w' = ?w" using st(2) n(1,4) by simp
      have nf: ?nf
        using st(3) n(1,3) st(2)
        by (auto simp: noFault_def less_Suc_eq)
      show thesis by (rule that(4) [OF False st(1) x nf w])
    qed
  qed
qed

lemma tryBlock_cases [consumes 1, case_names resolveFail cursorFail dateFail fetchFail page]:
  assumes "tryBlock env s iv w = Some (x, w')"
  obtains
    e where "resolveSymbol env s (logLine (LogStarting s iv) w) = (Inl e, w')" "x = Inl e"
  | row w1 e where "resolveSymbol env s (logLine (LogStarting s iv) w) = (Inr row, w1)"
      "candlesticks_getLatestTimestamp env (sym_id row) iv w1 = (Inl e, w')" "x = Inl e"
  | row w1 latest w2 e where "resolveSymbol env s (logLine (LogStarting s iv) w) = (Inr row, w1)"
      "candlesticks_getLatestTimestamp env (sym_id row) iv w1 = (Inr latest, w2)"
      "nextStartTime iv latest w2 = (Inl e, w')" "x = Inl e"
  | row w1 latest w2 start w3 e where
      "resolveSymbol env s (logLine (LogStarting s iv) w) = (Inr row, w1)"
      "candlesticks_getLatestTimestamp env (sym_id row) iv w1 = (Inr latest, w2)"
      "nextStartTime iv latest w2 = (Inr start, w3)"
      "fetchKlines env \<lparr>opt_symbol = s, opt_interval = iv, opt_limit = Some 1000,
                         opt_startTime = start, opt_endTime = None\<rparr> w3 = Some (Inl e, w')"
      "x = Inl e"
  | row w1 latest w2 start w3 page w4 where
      "resolveSymbol env s (logLine (LogStarting s iv) w) = (Inr row, w1)"
      "candlesticks_getLatestTimestamp env (sym_id row) iv w1 = (Inr latest, w2)"
      "nextStartTime iv latest w2 = (Inr start, w3)"
      "fetchKlines env \<lparr>opt_symbol = s, opt_interval = iv, opt_limit = Some 1000,
                         opt_startTime = start, opt_endTime = None\<rparr> w3 = Some (Inr page, w4)"
      "storePage env s row iv latest page w4 = (x, w')"
  using assms unfolding tryBlock_def
  by (auto split: prod.splits sum.splits option.splits)

lemma sync_cases [consumes 1, case_names returned caught]:
  assumes "syncCandlesticks env s iv w = Some (r, w')"
  obtains
    "tryBlock env s iv w = Some (Inr r, w')"
  | m w1 where "tryBlock env s iv w = Some (Inl (Error m), w1)"
      "r = \<lparr>success = False, message = ''Sync failed: '' @ m,
             candlesticksAdded = 0, latestTimestamp = None\<rparr>"
      "w' = logLine (LogSyncFailed s iv m) w1"
  using assms unfolding syncCandlesticks_def
  by (auto split: prod.splits sum.splits option.splits error.splits)

lemma starts_append: "starts (xs @ ys) = starts xs @ starts ys"
  by (induction xs rule: starts.induct) simp_all

lemma starts_replicate: "starts (replicate k LogRateLimit) = []"
  by (induction k) simp_all

lemma nextStartTime_Inr:
  "nextStartTime iv latest w = (Inr start, w') \<Longrightarrow>
     \<exists>ev. w' = w\<lparr>logged := logged w @ [ev]\<rparr> \<and> (\<forall>evs. starts (ev # evs) = starts evs)
       \<and> startFor iv latest start"
  by (auto simp: nextStartTime_def logLine_def startFor_def
           split: option.splits if_splits js_value.splits)

lemma nextStartTime_Inl:
  "nextStartTime iv latest w = (Inl e, w') \<Longrightarrow> w' = w"
  by (auto simp: nextStartTime_def logLine_def split: option.splits if_splits js_value.splits)

lemma find_append_new:
  "find P xs = None \<Longrightarrow> P x \<Longrightarrow> find P (xs @ [x]) = Some x"
  by (induction xs) (auto split: if_splits)

lemma prefix_facts:
  assumes R: "resolveSymbol env s (logLine (LogStarting s iv) w) = (x, w1)"
  shows "candlesticksT w1 = candlesticksT w" "candlesticksSeq w1 = candlesticksSeq w"
    "httpLog w1 = httpLog w" "symbolStep w s w1" "dbCalls w \<le> dbCalls w1"
    "starts (logged w1) = starts (logged w) @ [(s, iv)]"
    "\<And>row. x = Inr row \<Longrightarrow> sym_id row = resolvedId w s \<and> noFault env (dbCalls w) (dbCalls w1)
              \<and> find (\<lambda>r. sym_symbol r = s) (symbolsT w1) = Some row"
  using R
  by (cases rule: resolveSymbol_cases;
      auto simp: logLine_def symbolStep_def createdRow_def resolvedId_def starts_append
                 noFault_def less_Suc_eq find_append_new)+

lemma outcome_Inr: "outcome a = Inr page \<Longrightarrow> a = Resolved page"
  by (cases a) (simp_all add: outcome_def)

lemma outcome_Inl:
  "outcome a = Inl e \<Longrightarrow> \<not> throttled a \<Longrightarrow>
     \<exists>status msg emsg. a = Rejected status msg emsg \<and> status \<noteq> Some 429
        \<and> e = Error (apiErrorMessage msg emsg)"
  by (cases a) (simp_all add: outcome_def throttled_def)

lemma tryBlock_run [consumes 1, case_names early fetchFail pageFault pageStored]:
  assumes "tryBlock env s iv w = Some (x, w')"
  obtains
    e where "x = Inl e" "httpLog w' = httpLog w"
      "candlesticksT w' = candlesticksT w" "candlesticksSeq w' = candlesticksSeq w"
      "symbolStep w s w'" "dbCalls w \<le> dbCalls w'"
      "starts (logged w') = starts (logged w) @ [(s, iv)]"
  | k start status msg emsg where
      "x = Inl (Error (apiErrorMessage msg emsg))"
      "startFor iv (latestOf (storedTimes w (resolvedId w s) iv)) start"
      "exchange env (length (httpLog w) + k) (buildParams (syncOptions s iv start))
         = Rejected status msg emsg" "status \<noteq> Some 429"
      "httpLog w' = httpLog w @ requests env (buildParams (syncOptions s iv start))
                                   (length (httpLog w)) (Suc k)"
      "\<forall>j<k. throttled (exchange env (length (httpLog w) + j)
                                (buildParams (syncOptions s iv start)))"
      "candlesticksT w' = candlesticksT w" "candlesticksSeq w' = candlesticksSeq w"
      "symbolStep w s w'" "dbCalls w \<le> dbCalls w'"
      "starts (logged w') = starts (logged w) @ [(s, iv)]"
  | k start page e where
      "x = Inl e" "page \<noteq> []"
      "startFor iv (latestOf (storedTimes w (resolvedId w s) iv)) start"
      "exchange env (length (httpLog w) + k) (buildParams (syncOptions s iv start))
         = Resolved page"
      "httpLog w' = httpLog w @ requests env (buildParams (syncOptions s iv start))
                                   (length (httpLog w)) (Suc k)"
      "\<forall>j<k. throttled (exchange env (length (httpLog w) + j)
                                (buildParams (syncOptions s iv start)))"
      "candlesticksT w' = candlesticksT w" "candlesticksSeq w' = candlesticksSeq w"
      "symbolStep w s w'" "dbCalls w \<le> dbCalls w'"
      "starts (logged w') = starts (logged w) @ [(s, iv)]"
  | k start page r where
      "x = Inr r" "success r"
      "startFor iv (latestOf (storedTimes w (resolvedId w s) iv)) start"
      "exchange env (length (httpLog w) + k) (buildParams (syncOptions s iv start))
         = Resolved page"
      "httpLog w' = httpLog w @ requests env (buildParams (syncOptions s iv start))
                                   (length (httpLog w)) (Suc k)"
      "\<forall>j<k. throttled (exchange env (length (httpLog w) + j)
                                (buildParams (syncOptions s iv start)))"
      "candlesticksAdded r = length (unseen w (resolvedId w s) iv page)"
      "latestTimestamp r =
         newCursor (map k_openTime page) (latestOf (storedTimes w (resolvedId w s) iv))"
      "message r =
         (if page = [] then ''No new candlesticks to sync''
          else ''Successfully synced ''
                 @ string_of_nat (length (unseen w (resolvedId w s) iv page))
                 @ '' candlesticks'')"
      "candlesticksT w' =
         candlesticksT w @ assignIds (candlesticksSeq w) (unseen w (resolvedId w s) iv page)"
      "candlesticksSeq w' = candlesticksSeq w + length (unseen w (resolvedId w s) iv page)"
      "symbolStep w s w'" "dbCalls w \<le> dbCalls w'" "noFault env (dbCalls w) (dbCalls w')"
      "starts (logged w') = starts (logged w) @ [(s, iv)]"
      "\<exists>row. find (\<lambda>r. sym_symbol r = s) (symbolsT w') = Some row
             \<and> sym_id row = resolvedId w s"
  using assms
proof (cases rule: tryBlock_cases)
  case (resolveFail e)
  note pf = prefix_facts [OF resolveFail(1)]
  show ?thesis
    by (rule that(1) [OF resolveFail(2) pf(3) pf(1) pf(2) pf(4) pf(5) pf(6)])
next
  case (cursorFail row w1 e)
  note pf = prefix_facts [OF cursorFail(1)]
  from cursorFail(2) have w': "w' = w1\<lparr>dbCalls := dbCalls w1 + 1\<rparr>"
    by (auto dest: getLatest_Inl)
  show ?thesis
    by (rule that(1) [OF cursorFail(3)])
       (use pf w' in \<open>auto simp: symbolStep_def\<close>)
next
  case (dateFail row w1 latest w2 e)
  note pf = prefix_facts [OF dateFail(1)]
  from dateFail(2) have "w2 = w1\<lparr>dbCalls := dbCalls w1 + 1\<rparr>"
    by (auto dest: getLatest_Inr)
  moreover from dateFail(3) have "w' = w2" by (rule nextStartTime_Inl)
  ultimately have w': "w' = w1\<lparr>dbCalls := dbCalls w1 + 1\<rparr>" by simp
  show ?thesis
    by (rule that(1) [OF dateFail(4)])
       (use pf w' in \<open>auto simp: symbolStep_def\<close>)
next
  case (fetchFail row w1 latest w2 start w3 e)
  note pf = prefix_facts [OF fetchFail(1)]
  from fetchFail(2) have g: "dbFault env (dbCalls w1) = None"
    "latest = latestOf (storedTimes w1 (sym_id row) iv)" "w2 = w1\<lparr>dbCalls := dbCalls w1 + 1\<rparr>"
    by (auto dest: getLatest_Inr)
  from fetchFail(3) obtain ev where n: "w3 = w2\<lparr>logged := logged w2 @ [ev]\<rparr>"
    "\<And>evs. starts (ev # evs) = starts evs" "startFor iv latest start"
    by (auto dest: nextStartTime_Inr)
  have lat: "latest = latestOf (storedTimes w (resolvedId w s) iv)"
    using g(2) pf(1) pf(7) by (simp add: storedTimes_def)
  have log3: "httpLog w3 = httpLog w" using n(1) g(3) pf(3) by simp
  let ?p = "buildParams (syncOptions s iv start)"
  from fetchKlines_Some [OF fetchFail(4) [folded syncOptions_def]] log3
  obtain k where k: "Inl e = outcome (exchange env (length (httpLog w) + k) ?p)"
     "w' = w3\<lparr>httpLog := httpLog w @ requests env ?p (length (httpLog w)) (Suc k),
               logged := logged w3 @ replicate k LogRateLimit,
               slept := slept w3 + 1000 * k\<rparr>"
     "\<not> throttled (exchange env (length (httpLog w) + k) ?p)"
     "\<forall>j<k. throttled (exchange env (length (httpLog w) + j) ?p)"
    by auto
  from outcome_Inl [OF k(1) [symmetric] k(3)] obtain status msg emsg where
    a: "exchange env (length (httpLog w) + k) ?p = Rejected status msg emsg"
       "status \<noteq> Some 429" "e = Error (apiErrorMessage msg emsg)"
    by blast
  show ?thesis
    by (rule that(2) [OF _ _ a(1) a(2)])
       (use pf g n k(2,4) a(3) fetchFail(5) lat in
         \<open>auto simp: symbolStep_def starts_append starts_replicate\<close>)
next
  case (page row w1 latest w2 start w3 page w4)
  note pf = prefix_facts [OF page(1)]
  from page(2) have g: "dbFault env (dbCalls w1) = None"
    "latest = latestOf (storedTimes w1 (sym_id row) iv)" "w2 = w1\<lparr>dbCalls := dbCalls w1 + 1\<rparr>"
    by (auto dest: getLatest_Inr)
  from page(3) obtain ev where n: "w3 = w2\<lparr>logged := logged w2 @ [ev]\<rparr>"
    "\<And>evs. starts (ev # evs) = starts evs" "startFor iv latest start"
    by (auto dest: nextStartTime_Inr)
  have sid: "sym_id row = resolvedId w s" and nf1: "noFault env (dbCalls w) (dbCalls w1)"
    and fnd: "find (\<lambda>r. sym_symbol r = s) (symbolsT w1) = Some row"
    using pf(7) by simp_all
  have lat: "latest = latestOf (storedTimes w (resolvedId w s) iv)"
    using g(2) pf(1) sid by (simp add: storedTimes_def)
  have log3: "httpLog w3 = httpLog w" using n(1) g(3) pf(3) by simp
  let ?p = "buildParams (syncOptions s iv start)"
  from fetchKlines_Some [OF page(4) [folded syncOptions_def]] log3
  obtain k where k: "Inr page = outcome (exchange env (length (httpLog w) + k) ?p)"
     "w4 = w3\<lparr>httpLog := httpLog w @ requests env ?p (length (httpLog w)) (Suc k),
               logged := logged w3 @ replicate k LogRateLimit,
               slept := slept w3 + 1000 * k\<rparr>"
     "\<forall>j<k. throttled (exchange env (length (httpLog w) + j) ?p)"
    by auto
  from outcome_Inr [OF k(1) [symmetric]]
  have a: "exchange env (length (httpLog w) + k) ?p = Resolved page" .
  have nf4: "noFault env (dbCalls w) (dbCalls w4)"
    using nf1 g(1) g(3) n(1) k(2) by (auto simp: noFault_def less_Suc_eq)
  have c4: "candlesticksT w4 = candlesticksT w" "candlesticksSeq w4 = candlesticksSeq w"
    "dbCalls w \<le> dbCalls w4" "symbolStep w s w4"
    "starts (logged w4) = starts (logged w) @ [(s, iv)]"
    "httpLog w4 = httpLog w @ requests env ?p (length (httpLog w)) (Suc k)"
    "\<exists>row. find (\<lambda>r. sym_symbol r = s) (symbolsT w4) = Some row
           \<and> sym_id row = resolvedId w s"
    using pf(1-6) g(3) n(1,2) k(2) fnd sid
    by (auto simp: symbolStep_def starts_append starts_replicate)
  from page(5) show ?thesis
  proof (cases rule: storePage_cases)
    case empty
    show ?thesis
      by (rule that(4) [OF empty(2) _ n(3) [unfolded lat] a])
         (use empty c4 nf4 lat k(3) in \<open>auto simp: unseen_def symbolStep_def newCursor_def\<close>)
  next
    case (checkFault e k')
    show ?thesis
      by (rule that(3) [OF checkFault(2) checkFault(1) n(3) [unfolded lat] a])
         (use checkFault c4 k(3) in \<open>auto simp: symbolStep_def\<close>)
  next
    case (insertFault e)
    show ?thesis
      by (rule that(3) [OF insertFault(2) insertFault(1) n(3) [unfolded lat] a])
         (use insertFault c4 k(3) in \<open>auto simp: symbolStep_def\<close>)
  next
    case (kept new)
    have new: "new = unseen w (resolvedId w s) iv page"
      using kept(2) c4(1) sid by (simp add: unseen_def)
    have "dbCalls w' = dbCalls w4 + length page + (if new = [] then 0 else 1)"
      using kept(5) by (simp split: if_splits)
    with noFault_trans [OF nf4 kept(4)] have nf: "noFault env (dbCalls w) (dbCalls w')"
      by simp
    show ?thesis
      by (rule that(4) [OF kept(3) _ n(3) [unfolded lat] a])
         (use kept(1,5) new c4 nf lat k(3) in \<open>auto simp: symbolStep_def starts_append split: if_splits\<close>)
  qed
qed

lemma sync_run [consumes 1, case_names early fetchFail pageFault pageStored]:
  assumes "syncCandlesticks env s iv w = Some (r, w')"
  obtains
    m where
      "r = \<lparr>success = False, message = ''Sync failed: '' @ m,
             candlesticksAdded = 0, latestTimestamp = None\<rparr>"
      "httpLog w' = httpLog w"
      "candlesticksT w' = candlesticksT w" "candlesticksSeq w' = candlesticksSeq w"
      "symbolStep w s w'" "dbCalls w \<le> dbCalls w'"
      "starts (logged w') = starts (logged w) @ [(s, iv)]"
  | k start status msg emsg where
      "r = \<lparr>success = False, message = ''Sync failed: '' @ apiErrorMessage msg emsg,
             candlesticksAdded = 0, latestTimestamp = None\<rparr>"
      "startFor iv (latestOf (storedTimes w (resolvedId w s) iv)) start"
      "exchange env (length (httpLog w) + k) (buildParams (syncOptions s iv start))
         = Rejected status msg emsg" "status \<noteq> Some 429"
      "httpLog w' = httpLog w @ requests env (buildParams (syncOptions s iv start))
                                   (length (httpLog w)) (Suc k)"
      "\<forall>j<k. throttled (exchange env (length (httpLog w) + j)
                                (buildParams (syncOptions s iv start)))"
      "candlesticksT w' = candlesticksT w" "candlesticksSeq w' = candlesticksSeq w"
      "symbolStep w s w'" "dbCalls w \<le> dbCalls w'"
      "starts (logged w') = starts (logged w) @ [(s, iv)]"
  | k start page m where
      "r = \<lparr>success = False, message = ''Sync failed: '' @ m,
             candlesticksAdded = 0, latestTimestamp = None\<rparr>"
      "page \<noteq> []"
      "startFor iv (latestOf (storedTimes w (resolvedId w s) iv)) start"
      "exchange env (length (httpLog w) + k) (buildParams (syncOptions s iv start))
         = Resolved page"
      "httpLog w' = httpLog w @ requests env (buildParams (syncOptions s iv start))
                                   (length (httpLog w)) (Suc k)"
      "\<forall>j<k. throttled (exchange env (length (httpLog w) + j)
                                (buildParams (syncOptions s iv start)))"
      "candlesticksT w' = candlesticksT w" "candlesticksSeq w' = candlesticksSeq w"
      "symbolStep w s w'" "dbCalls w \<le> dbCalls w'"
      "starts (logged w') = starts (logged w) @ [(s, iv)]"
  | k start page where
      "success r"
      "startFor iv (latestOf (storedTimes w (resolvedId w s) iv)) start"
      "exchange env (length (httpLog w) + k) (buildParams (syncOptions s iv start))
         = Resolved page"
      "httpLog w' = httpLog w @ requests env (buildParams (syncOptions s iv start))
                                   (length (httpLog w)) (Suc k)"
      "\<forall>j<k. throttled (exchange env (length (httpLog w) + j)
                                (buildParams (syncOptions s iv start)))"
      "candlesticksAdded r = length (unseen w (resolvedId w s) iv page)"
      "latestTimestamp r =
         newCursor (map k_openTime page) (latestOf (storedTimes w (resolvedId w s) iv))"
      "message r =
         (if page = [] then ''No new candlesticks to sync''
          else ''Successfully synced ''
                 @ string_of_nat (length (unseen w (resolvedId w s) iv page))
                 @ '' candlesticks'')"
      "candlesticksT w' =
         candlesticksT w @ assignIds (candlesticksSeq w) (unseen w (resolvedId w s) iv page)"
      "candlesticksSeq w' = candlesticksSeq w + length (unseen w (resolvedId w s) iv page)"
      "symbolStep w s w'" "dbCalls w \<le> dbCalls w'" "noFault env (dbCalls w) (dbCalls w')"
      "starts (logged w') = starts (logged w) @ [(s, iv)]"
      "\<exists>row. find (\<lambda>r. sym_symbol r = s) (symbolsT w') = Some row
             \<and> sym_id row = resolvedId w s"
  using assms
proof (cases rule: sync_cases)
  case returned
  then show ?thesis
  proof (cases rule: tryBlock_run)
    case (pageStored k start page r')
    note ps = this
    from ps(1) have r: "r' = r" by simp
    show ?thesis
      by (rule that(4) [OF ps(2-16) [unfolded r]])
  qed simp_all
next
  case (caught m w1)
  note c = this
  from c(1) show ?thesis
  proof (cases rule: tryBlock_run)
    case (early e)
    show ?thesis
      by (rule that(1) [OF c(2)]) (use early c(3) in \<open>auto simp: logLine_def symbolStep_def starts_append\<close>)
  next
    case (fetchFail k start status msg emsg)
    note f = this
    from f(1) have m: "m = apiErrorMessage msg emsg" by simp
    show ?thesis
      by (rule that(2) [OF c(2) [unfolded m] f(2) f(3) f(4)])
         (use f c(3) in \<open>auto simp: logLine_def symbolStep_def starts_append\<close>)
  next
    case (pageFault k start page e)
    note f = this
    show ?thesis
      by (rule that(3) [OF c(2) f(2) f(3) f(4)])
         (use f c(3) in \<open>auto simp: logLine_def symbolStep_def starts_append\<close>)
  next
    case (pageStored k start page r')
    then show ?thesis by simp
  qed
qed

subsection \<open>What a call does to the tables and what it reports\<close>

lemmas run_defs =
  syncCandlesticks_def tryBlock_def resolveSymbol_def symbols_findBySymbol_def
  symbols_create_def dbCall_def candlesticks_getLatestTimestamp_def
  candlesticks_findExisting_def candlesticks_createMany_def nextStartTime_def
  storePage_def insertNew_def latestOf_def logLine_def newCursor_def
  fetchKlines_resolved fetchKlines_rejected fetchKlines_throttled
  serving_def emptyWorld_def primed_def buildParams_def truthy_def matches_def
  toCandlestick_def bar_def getIntervalMs_def intervalMap_def validDate_def
  parseSymbol_def commonQuotes_def endsWith_def sliceHead_def sliceTail_def
  tooManyRequests_def apiErrorMessage_def syncOptions_def Let_def

lemma newExchanges_append: "httpLog w' = httpLog w @ xs \<Longrightarrow> newExchanges w w' = xs"
  by (simp add: newExchanges_def)

lemma newExchanges_same: "httpLog w' = httpLog w \<Longrightarrow> newExchanges w w' = []"
  by (simp add: newExchanges_def)

lemma keyOf_assignIds:
  "map keyOf (assignIds n ds) = map (\<lambda>d. (symbolId d, interval d, openTime d)) ds"
  by (induction ds arbitrary: n) (simp_all add: keyOf_def)

lemma unseen_fresh:
  "c \<in> set (assignIds n (unseen w sid iv page)) \<Longrightarrow> keyOf c \<notin> keyOf ` set (candlesticksT w)"
proof -
  assume "c \<in> set (assignIds n (unseen w sid iv page))"
  then have "keyOf c \<in> set (map keyOf (assignIds n (unseen w sid iv page)))" by simp
  then obtain d where "d \<in> set (unseen w sid iv page)"
    "keyOf c = (symbolId d, interval d, openTime d)"
    unfolding keyOf_assignIds by auto
  then show ?thesis by (auto simp: unseen_def stored_iff)
qed

text \<open>
  C9: a call leaves every row that was in the candlesticks table as it was and in its
  place; all it does to the table is append rows whose key no row had before the call.
  The symbols table is untouched, or the row of the code was appended when the table had
  none for it.
\<close>

theorem sync_only_appends_new_keys:
  assumes "syncCandlesticks env code iv w = Some (r, w')"
  shows "\<exists>rows. candlesticksT w' = candlesticksT w @ rows
           \<and> (\<forall>c \<in> set rows. keyOf c \<notin> keyOf ` set (candlesticksT w))
           \<and> (symbolsT w' = symbolsT w
              \<or> find (\<lambda>row. sym_symbol row = code) (symbolsT w) = None
                \<and> (\<exists>row. sym_symbol row = code \<and> symbolsT w' = symbolsT w @ [row]))"
  using assms
proof (cases rule: sync_run)
  case (pageStored k start page)
  let ?rows = "assignIds (candlesticksSeq w) (unseen w (resolvedId w code) iv page)"
  have "candlesticksT w' = candlesticksT w @ ?rows" by (rule pageStored(9))
  moreover have "\<forall>c \<in> set ?rows. keyOf c \<notin> keyOf ` set (candlesticksT w)"
    using unseen_fresh by blast
  moreover have "symbolsT w' = symbolsT w
      \<or> find (\<lambda>row. sym_symbol row = code) (symbolsT w) = None
        \<and> (\<exists>row. sym_symbol row = code \<and> symbolsT w' = symbolsT w @ [row])"
    using pageStored(11) by (auto simp: symbolStep_def createdRow_def)
  ultimately show ?thesis by blast
qed (auto simp: symbolStep_def createdRow_def)

text \<open>
  The stored bar at 1000 comes back in the page together with a new bar at 61000: the
  stored row stays, one row is appended.
\<close>

theorem sync_only_appends_new_keys_witness:
  "\<exists>r w'. syncCandlesticks (serving (\<lambda>n. Resolved [bar 1000, bar 61000]))
              ''BTCUSDT'' ''1m'' (primed ''1m'' 1000) = Some (r, w')
     \<and> candlesticksAdded r = 1
     \<and> (\<exists>rows. candlesticksT w' = candlesticksT (primed ''1m'' 1000) @ rows
           \<and> length rows = 1
           \<and> (\<forall>c \<in> set rows. keyOf c \<notin> keyOf ` set (candlesticksT (primed ''1m'' 1000))))"
proof -
  let ?env = "serving (\<lambda>n. Resolved [bar 1000, bar 61000])"
  obtain r w' where run: "syncCandlesticks ?env ''BTCUSDT'' ''1m'' (primed ''1m'' 1000) = Some (r, w')"
    and added: "candlesticksAdded r = 1" and len: "length (candlesticksT w') = 2"
    by (simp add: run_defs stored_def)
  from sync_only_appends_new_keys [OF run] obtain rows where
    rows: "candlesticksT w' = candlesticksT (primed ''1m'' 1000) @ rows"
      "\<forall>c \<in> set rows. keyOf c \<notin> keyOf ` set (candlesticksT (primed ''1m'' 1000))"
    by blast
  from rows(1) len have "length rows = 1" by (simp add: primed_def)
  with run added rows show ?thesis by blast
qed

lemma fold_max_Max: "fold max ts (t::int) = Max (set (t # ts))"
  by (rule Max.set_eq_fold [symmetric])

lemma newCursor_Max:
  "ts \<noteq> [] \<Longrightarrow> newCursor ts latest = Some (Max (set ts))"
  by (cases ts) (simp_all add: newCursor_def fold_max_Max del: set_simps)

text \<open>
  C2: a call that returns success has fetched a page, the answer to the last request it
  made; when that page is not empty, the \<open>latestTimestamp\<close> of the result is the
  greatest open time of the whole page, whichever of its bars were inserted.
\<close>

theorem latestTimestamp_is_page_maximum:
  assumes "syncCandlesticks env code iv w = Some (r, w')" and "success r"
  shows "\<exists>p page. newExchanges w w' \<noteq> [] \<and> last (newExchanges w w') = (p, Resolved page)
           \<and> (page \<noteq> [] \<longrightarrow> latestTimestamp r = Some (Max (set (map k_openTime page))))"
  using assms(1)
proof (cases rule: sync_run)
  case (pageStored k start page)
  let ?p = "buildParams (syncOptions code iv start)"
  have new: "newExchanges w w' = requests env ?p (length (httpLog w)) (Suc k)"
    using pageStored(4) by (rule newExchanges_append)
  then have "newExchanges w w' \<noteq> []" by simp
  moreover have "last (newExchanges w w') = (?p, Resolved page)"
    unfolding new requests_last using pageStored(3) by simp
  moreover have "page \<noteq> [] \<longrightarrow> latestTimestamp r = Some (Max (set (map k_openTime page)))"
    using pageStored(7) by (simp add: newCursor_Max)
  ultimately show ?thesis by blast
qed (use assms(2) in simp_all)

text \<open>
  The page holds the stored bar at 1000 and bars at 61000 and 121000; two are inserted and
  the result reports 121000.
\<close>

theorem latestTimestamp_is_page_maximum_witness:
  "\<exists>r w'. syncCandlesticks (serving (\<lambda>n. Resolved [bar 1000, bar 121000, bar 61000]))
              ''BTCUSDT'' ''1m'' (primed ''1m'' 1000) = Some (r, w')
     \<and> success r \<and> candlesticksAdded r = 2 \<and> latestTimestamp r = Some 121000
     \<and> (\<exists>p page. newExchanges (primed ''1m'' 1000) w' \<noteq> []
           \<and> last (newExchanges (primed ''1m'' 1000) w') = (p, Resolved page)
           \<and> page \<noteq> []
           \<and> latestTimestamp r = Some (Max (set (map k_openTime page))))"
proof -
  let ?env = "serving (\<lambda>n. Resolved [bar 1000, bar 121000, bar 61000])"
  obtain r w' where run: "syncCandlesticks ?env ''BTCUSDT'' ''1m'' (primed ''1m'' 1000) = Some (r, w')"
    and ok: "success r" "candlesticksAdded r = 2" "latestTimestamp r = Some 121000"
    and log: "map snd (newExchanges (primed ''1m'' 1000) w') = [Resolved [bar 1000, bar 121000, bar 61000]]"
    by (simp add: run_defs stored_def newExchanges_def)
  from latestTimestamp_is_page_maximum [OF run ok(1)] obtain p page where
    pg: "newExchanges (primed ''1m'' 1000) w' \<noteq> []"
      "last (newExchanges (primed ''1m'' 1000) w') = (p, Resolved page)"
      "page \<noteq> [] \<longrightarrow> latestTimestamp r = Some (Max (set (map k_openTime page)))"
    by blast
  from pg(1,2) log have "page = [bar 1000, bar 121000, bar 61000]"
    by (cases "newExchanges (primed ''1m'' 1000) w'") auto
  then have "page \<noteq> []" by simp
  with run ok pg show ?thesis by blast
qed

subsection \<open>The retry on a rate limit\<close>

text \<open>
  C7: a 429 answer is not surfaced: the call warns, waits 1000 ms and is the call of
  itself with the same options, so the same request goes out again. A 429 followed by a
  2xx answer returns the data of that answer after exactly two requests, the second equal
  to the first. In every returning call each 429 costs one more identical request and
  1000 ms, and the result is what the first other answer gives. Any other rejection
  returns an error whose message carries the upstream \<open>msg\<close> when there is a non-empty
  one, and the message of the rejection otherwise.
\<close>

theorem fetchKlines_retries_on_429:
  assumes "p = buildParams opts" and "n = length (httpLog w)"
  shows
    "(exchange env n p = Rejected (Some 429) msg emsg \<longrightarrow>
        fetchKlines env opts w =
          fetchKlines env opts
            (w\<lparr>httpLog := httpLog w @ [(p, Rejected (Some 429) msg emsg)],
               logged := logged w @ [LogRateLimit], slept := slept w + 1000\<rparr>))
     \<and> (exchange env n p = Rejected (Some 429) msg emsg \<and> exchange env (n + 1) p = Resolved page \<longrightarrow>
        fetchKlines env opts w =
          Some (Inr page,
                w\<lparr>httpLog := httpLog w @ [(p, Rejected (Some 429) msg emsg), (p, Resolved page)],
                   logged := logged w @ [LogRateLimit], slept := slept w + 1000\<rparr>))
     \<and> (\<forall>x w'. fetchKlines env opts w = Some (x, w') \<longrightarrow>
          (\<exists>k. newExchanges w w' = requests env p n (Suc k)
             \<and> (\<forall>j<k. throttled (exchange env (n + j) p))
             \<and> \<not> throttled (exchange env (n + k) p)
             \<and> x = outcome (exchange env (n + k) p)
             \<and> slept w' = slept w + 1000 * k))
     \<and> (exchange env n p = Rejected status msg emsg \<and> status \<noteq> Some 429 \<longrightarrow>
        fetchKlines env opts w =
          Some (Inl (Error (''Binance API error: ''
                             @ (case msg of Some m \<Rightarrow> if m \<noteq> [] then m else emsg
                                | None \<Rightarrow> emsg))),
                w\<lparr>httpLog := httpLog w @ [(p, Rejected status msg emsg)]\<rparr>))"
proof (intro conjI impI allI)
  assume a: "exchange env n p = Rejected (Some 429) msg emsg"
  then show "fetchKlines env opts w =
          fetchKlines env opts
            (w\<lparr>httpLog := httpLog w @ [(p, Rejected (Some 429) msg emsg)],
               logged := logged w @ [LogRateLimit], slept := slept w + 1000\<rparr>)"
    using assms by (simp add: fetchKlines_throttled)
next
  assume a: "exchange env n p = Rejected (Some 429) msg emsg \<and> exchange env (n + 1) p = Resolved page"
  then show "fetchKlines env opts w =
          Some (Inr page,
                w\<lparr>httpLog := httpLog w @ [(p, Rejected (Some 429) msg emsg), (p, Resolved page)],
                   logged := logged w @ [LogRateLimit], slept := slept w + 1000\<rparr>)"
    using assms by (simp add: fetchKlines_throttled fetchKlines_resolved)
next
  fix x w'
  assume "fetchKlines env opts w = Some (x, w')"
  from fetchKlines_Some [OF this] assms
  show "\<exists>k. newExchanges w w' = requests env p n (Suc k)
             \<and> (\<forall>j<k. throttled (exchange env (n + j) p))
             \<and> \<not> throttled (exchange env (n + k) p)
             \<and> x = outcome (exchange env (n + k) p)
             \<and> slept w' = slept w + 1000 * k"
    by (auto simp: newExchanges_def)
next
  assume "exchange env n p = Rejected status msg emsg \<and> status \<noteq> Some 429"
  then show "fetchKlines env opts w =
          Some (Inl (Error (''Binance API error: ''
                             @ (case msg of Some m \<Rightarrow> if m \<noteq> [] then m else emsg
                                | None \<Rightarrow> emsg))),
                w\<lparr>httpLog := httpLog w @ [(p, Rejected status msg emsg)]\<rparr>)"
    using assms by (simp add: fetchKlines_rejected apiErrorMessage_def)
qed

text \<open>
  One 429, then a page: the page is returned after two equal requests and one wait. An
  answer 400 with an upstream message returns that message.
\<close>

theorem fetchKlines_retries_on_429_witness:
  "fetchKlines (serving (\<lambda>n. if n = 0 then tooManyRequests else Resolved [bar 1000]))
       (syncOptions ''BTCUSDT'' ''1m'' None) emptyWorld
     = Some (Inr [bar 1000],
             emptyWorld
               \<lparr>httpLog :=
                  [(buildParams (syncOptions ''BTCUSDT'' ''1m'' None), tooManyRequests),
                   (buildParams (syncOptions ''BTCUSDT'' ''1m'' None), Resolved [bar 1000])],
                logged := [LogRateLimit], slept := 1000\<rparr>)
   \<and> fetchKlines (serving (\<lambda>n. Rejected (Some 400) (Some ''Invalid symbol.'')
                                   ''Request failed with status code 400''))
       (syncOptions ''NOPE'' ''1m'' None) emptyWorld
     = Some (Inl (Error ''Binance API error: Invalid symbol.''),
             emptyWorld
               \<lparr>httpLog :=
                  [(buildParams (syncOptions ''NOPE'' ''1m'' None),
                    Rejected (Some 400) (Some ''Invalid symbol.'')
                      ''Request failed with status code 400'')]\<rparr>)"
proof -
  let ?e1 = "serving (\<lambda>n. if n = 0 then tooManyRequests else Resolved [bar 1000])"
  let ?o1 = "syncOptions ''BTCUSDT'' ''1m'' None"
  let ?e2 = "serving (\<lambda>n. Rejected (Some 400) (Some ''Invalid symbol.'')
                                   ''Request failed with status code 400'')"
  let ?o2 = "syncOptions ''NOPE'' ''1m'' None"
  have h1: "exchange ?e1 (length (httpLog emptyWorld)) (buildParams ?o1)
              = Rejected (Some 429) None ''Request failed with status code 429''
            \<and> exchange ?e1 (length (httpLog emptyWorld) + 1) (buildParams ?o1) = Resolved [bar 1000]"
    by (simp add: serving_def emptyWorld_def tooManyRequests_def)
  have h2: "exchange ?e2 (length (httpLog emptyWorld)) (buildParams ?o2)
              = Rejected (Some 400) (Some ''Invalid symbol.'') ''Request failed with status code 400''
            \<and> Some (400::nat) \<noteq> Some 429"
    by (simp add: serving_def)
  from fetchKlines_retries_on_429 [OF refl refl, where env = ?e1 and opts = ?o1
      and w = emptyWorld and msg = None and emsg = "''Request failed with status code 429''"
      and page = "[bar 1000]"] h1
  have "fetchKlines ?e1 ?o1 emptyWorld =
          Some (Inr [bar 1000],
                emptyWorld\<lparr>httpLog := httpLog emptyWorld @
                    [(buildParams ?o1, Rejected (Some 429) None ''Request failed with status code 429''),
                     (buildParams ?o1, Resolved [bar 1000])],
                   logged := logged emptyWorld @ [LogRateLimit],
                   slept := slept emptyWorld + 1000\<rparr>)"
    by blast
  moreover
  from fetchKlines_retries_on_429 [OF refl refl, where env = ?e2 and opts = ?o2
      and w = emptyWorld and status = "Some 400" and msg = "Some ''Invalid symbol.''"
      and emsg = "''Request failed with status code 400''"] h2
  have "fetchKlines ?e2 ?o2 emptyWorld =
          Some (Inl (Error (''Binance API error: '' @ ''Invalid symbol.'')),
                emptyWorld\<lparr>httpLog := httpLog emptyWorld @
                    [(buildParams ?o2, Rejected (Some 400) (Some ''Invalid symbol.'')
                        ''Request failed with status code 400'')]\<rparr>)"
    by simp
  ultimately show ?thesis
    by (simp add: emptyWorld_def tooManyRequests_def)
qed

subsection \<open>The cursor read\<close>

lemma latestOf_None:
  "(latestOf ts = None) = (ts = [] \<or> Max (set ts) = 0)"
  by (cases ts) (simp_all add: latestOf_def fold_max_Max Let_def del: set_simps)

lemma latestOf_Some:
  "ts \<noteq> [] \<Longrightarrow> Max (set ts) \<noteq> 0 \<Longrightarrow> latestOf ts = Some (Max (set ts))"
  by (cases ts) (simp_all add: latestOf_def fold_max_Max Let_def del: set_simps)

lemma sync_requests:
  assumes "syncCandlesticks env code iv w = Some (r, w')"
    and "e \<in> set (newExchanges w w')"
  shows "\<exists>start. startFor iv (latestOf (storedTimes w (resolvedId w code) iv)) start
           \<and> fst e = buildParams (syncOptions code iv start)"
  using assms(1)
proof (cases rule: sync_run)
  case (early m)
  with assms(2) show ?thesis by (simp add: newExchanges_same)
next
  case (fetchFail k start status msg emsg)
  from fetchFail(5) assms(2)
  have "e \<in> set (requests env (buildParams (syncOptions code iv start)) (length (httpLog w)) (Suc k))"
    by (simp only: newExchanges_append)
  with fetchFail(2) show ?thesis by (blast dest: requests_fst)
next
  case (pageFault k start page m)
  from pageFault(5) assms(2)
  have "e \<in> set (requests env (buildParams (syncOptions code iv start)) (length (httpLog w)) (Suc k))"
    by (simp only: newExchanges_append)
  with pageFault(3) show ?thesis by (blast dest: requests_fst)
next
  case (pageStored k start page)
  from pageStored(4) assms(2)
  have "e \<in> set (requests env (buildParams (syncOptions code iv start)) (length (httpLog w)) (Suc k))"
    by (simp only: newExchanges_append)
  with pageStored(2) show ?thesis by (blast dest: requests_fst)
qed

text \<open>
  C10: the cursor read returns \<open>null\<close> exactly when no row is stored for the symbol id
  and interval or the greatest stored open time is 0; and a call on a store whose greatest
  open time for the symbol and interval is 0 sends the request a call without cursor
  sends, with no \<open>startTime\<close>.
\<close>

theorem zero_cursor_reads_as_absent:
  "(candlesticks_getLatestTimestamp env sid iv w = (Inr x, w1) \<longrightarrow>
      (x = None) = (storedTimes w sid iv = [] \<or> Max (set (storedTimes w sid iv)) = 0))
   \<and> (syncCandlesticks env code iv w = Some (r, w')
        \<and> storedTimes w (resolvedId w code) iv \<noteq> []
        \<and> Max (set (storedTimes w (resolvedId w code) iv)) = 0 \<longrightarrow>
      (\<forall>e \<in> set (newExchanges w w').
          fst e = buildParams (syncOptions code iv None) \<and> q_startTime (fst e) = None))"
proof (rule conjI)
  show "candlesticks_getLatestTimestamp env sid iv w = (Inr x, w1) \<longrightarrow>
      (x = None) = (storedTimes w sid iv = [] \<or> Max (set (storedTimes w sid iv)) = 0)"
  proof
    assume "candlesticks_getLatestTimestamp env sid iv w = (Inr x, w1)"
    then have "x = latestOf (storedTimes w sid iv)" by (auto dest: getLatest_Inr)
    then show "(x = None) = (storedTimes w sid iv = [] \<or> Max (set (storedTimes w sid iv)) = 0)"
      by (simp add: latestOf_None)
  qed
next
  show "syncCandlesticks env code iv w = Some (r, w')
        \<and> storedTimes w (resolvedId w code) iv \<noteq> []
        \<and> Max (set (storedTimes w (resolvedId w code) iv)) = 0 \<longrightarrow>
      (\<forall>e \<in> set (newExchanges w w').
          fst e = buildParams (syncOptions code iv None) \<and> q_startTime (fst e) = None)"
  proof (intro impI ballI)
    fix e
    assume a: "syncCandlesticks env code iv w = Some (r, w')
          \<and> storedTimes w (resolvedId w code) iv \<noteq> []
          \<and> Max (set (storedTimes w (resolvedId w code) iv)) = 0"
      and e: "e \<in> set (newExchanges w w')"
    from a have run: "syncCandlesticks env code iv w = Some (r, w')" by simp
    from a have "latestOf (storedTimes w (resolvedId w code) iv) = None"
      by (simp add: latestOf_None)
    with sync_requests [OF run e]
    have "fst e = buildParams (syncOptions code iv None)"
      by (auto simp: startFor_def)
    then show "fst e = buildParams (syncOptions code iv None) \<and> q_startTime (fst e) = None"
      by (simp add: buildParams_def syncOptions_def truthy_def)
  qed
qed

text \<open>
  The only stored bar opens at 0: the cursor read gives \<open>null\<close> and the one request of
  the call has no \<open>startTime\<close>.
\<close>

theorem zero_cursor_reads_as_absent_witness:
  "fst (candlesticks_getLatestTimestamp (serving (\<lambda>n. Resolved [])) 1 ''1m'' (primed ''1m'' 0))
     = Inr None
   \<and> storedTimes (primed ''1m'' 0) 1 ''1m'' = [0]
   \<and> (\<exists>r w'. syncCandlesticks (serving (\<lambda>n. Resolved [])) ''BTCUSDT'' ''1m'' (primed ''1m'' 0)
                = Some (r, w')
         \<and> map (\<lambda>e. q_startTime (fst e)) (newExchanges (primed ''1m'' 0) w') = [None])"
proof -
  let ?env = "serving (\<lambda>n. Resolved [])" and ?w = "primed ''1m'' 0"
  have st: "storedTimes ?w 1 ''1m'' = [0]"
    by (simp add: storedTimes_def primed_def matches_def toCandlestick_def bar_def)
  have rid: "resolvedId ?w ''BTCUSDT'' = 1"
    by (simp add: resolvedId_def primed_def)
  obtain x w1 where g: "candlesticks_getLatestTimestamp ?env 1 ''1m'' ?w = (Inr x, w1)"
    by (simp add: run_defs)
  obtain r w' where run: "syncCandlesticks ?env ''BTCUSDT'' ''1m'' ?w = Some (r, w')"
    and len: "length (newExchanges ?w w') = 1"
    by (simp add: run_defs newExchanges_def)
  note inst = zero_cursor_reads_as_absent [of ?env 1 "''1m''" ?w x w1 "''BTCUSDT''" r w']
  from inst g st have "x = None" by simp
  with g have "fst (candlesticks_getLatestTimestamp ?env 1 ''1m'' ?w) = Inr None" by simp
  moreover from inst run st rid
  have "\<forall>e \<in> set (newExchanges ?w w').
          fst e = buildParams (syncOptions ''BTCUSDT'' ''1m'' None) \<and> q_startTime (fst e) = None"
    by (simp add: buildParams_def syncOptions_def truthy_def)
  then have "\<forall>e \<in> set (newExchanges ?w w'). q_startTime (fst e) = None" by blast
  with len have "map (\<lambda>e. q_startTime (fst e)) (newExchanges ?w w') = [None]"
    by (cases "newExchanges ?w w'") auto
  ultimately show ?thesis using st run
    by (intro conjI exI [of _ r] exI [of _ w']) assumption+
qed

subsection \<open>Failures as results\<close>









subsection \<open>The batch\<close>





subsection \<open>Uniqueness of the key\<close>







subsection \<open>The start time of the fetch\<close>

lemma getIntervalMs_table: "(iv, d) \<in> set intervalMap \<Longrightarrow> getIntervalMs iv = JSNumber d"
  unfolding intervalMap_def getIntervalMs_def
  by (elim disjE | simp)+

lemma getIntervalMs_default:
  "iv \<notin> fst ` set intervalMap \<Longrightarrow> iv \<notin> set objectPrototypeKeys \<Longrightarrow>
     getIntervalMs iv = JSNumber 60000"
proof -
  assume "iv \<notin> fst ` set intervalMap" and k: "iv \<notin> set objectPrototypeKeys"
  then have "map_of intervalMap iv = None" by (simp add: map_of_eq_None_iff)
  with k show ?thesis by (simp add: getIntervalMs_def)
qed

lemma getIntervalMs_positive: "getIntervalMs iv = JSNumber d \<Longrightarrow> 0 < d"
proof -
  assume a: "getIntervalMs iv = JSNumber d"
  show ?thesis
  proof (cases "map_of intervalMap iv")
    case None
    with a show ?thesis by (auto simp: getIntervalMs_def split: if_splits)
  next
    case (Some ms)
    then have "(iv, ms) \<in> set intervalMap" by (rule map_of_SomeD)
    then have "0 < ms" by (auto simp: intervalMap_def)
    with a Some show ?thesis by (auto simp: getIntervalMs_def split: if_splits)
  qed
qed

text \<open>
  C3, as the code has it. The table has fifteen entries, \<open>getIntervalMs\<close> returns the
  entry of a listed code and 60000 for any other string that is not the name of a member
  inherited from \<^verbatim>\<open>Object.prototype\<close>. When the rows stored for the symbol and interval
  have the greatest open time \<open>T\<close>, \<open>T\<close> is not 0, the duration \<open>d\<close> is a number and
  \<open>T + d\<close> is not 0, every request the call makes carries \<open>startTime = T + d\<close>, which
  lies after \<open>T\<close>. When no row is stored for the symbol and interval, every request the
  call makes is without \<open>startTime\<close>.
\<close>

theorem sync_resumes_after_cursor:
  "length intervalMap = 15
   \<and> ((iv, ms) \<in> set intervalMap \<longrightarrow> getIntervalMs iv = JSNumber ms)
   \<and> (iv \<notin> fst ` set intervalMap \<and> iv \<notin> set objectPrototypeKeys \<longrightarrow>
        getIntervalMs iv = JSNumber 60000)
   \<and> (syncCandlesticks env code iv w = Some (r, w')
        \<and> storedTimes w (resolvedId w code) iv \<noteq> []
        \<and> T = Max (set (storedTimes w (resolvedId w code) iv))
        \<and> T \<noteq> 0 \<and> getIntervalMs iv = JSNumber d \<and> T + d \<noteq> 0 \<longrightarrow>
        T < T + d
        \<and> (\<forall>e \<in> set (newExchanges w w').
              fst e = \<lparr>q_symbol = code, q_interval = iv, q_startTime = Some (T + d),
                       q_endTime = None, q_limit = Some 1000\<rparr>))
   \<and> (syncCandlesticks env code iv w = Some (r, w')
        \<and> storedTimes w (resolvedId w code) iv = [] \<longrightarrow>
        (\<forall>e \<in> set (newExchanges w w').
              fst e = \<lparr>q_symbol = code, q_interval = iv, q_startTime = None,
                       q_endTime = None, q_limit = Some 1000\<rparr>))"
proof (intro conjI)
  show "length intervalMap = 15" by (simp add: intervalMap_def)
  show "(iv, ms) \<in> set intervalMap \<longrightarrow> getIntervalMs iv = JSNumber ms"
    by (simp add: getIntervalMs_table)
  show "iv \<notin> fst ` set intervalMap \<and> iv \<notin> set objectPrototypeKeys \<longrightarrow>
        getIntervalMs iv = JSNumber 60000"
    by (simp add: getIntervalMs_default)
  show "syncCandlesticks env code iv w = Some (r, w')
        \<and> storedTimes w (resolvedId w code) iv \<noteq> []
        \<and> T = Max (set (storedTimes w (resolvedId w code) iv))
        \<and> T \<noteq> 0 \<and> getIntervalMs iv = JSNumber d \<and> T + d \<noteq> 0 \<longrightarrow>
        T < T + d
        \<and> (\<forall>e \<in> set (newExchanges w w').
              fst e = \<lparr>q_symbol = code, q_interval = iv, q_startTime = Some (T + d),
                       q_endTime = None, q_limit = Some 1000\<rparr>)"
  proof (intro impI conjI ballI)
    assume a: "syncCandlesticks env code iv w = Some (r, w')
        \<and> storedTimes w (resolvedId w code) iv \<noteq> []
        \<and> T = Max (set (storedTimes w (resolvedId w code) iv))
        \<and> T \<noteq> 0 \<and> getIntervalMs iv = JSNumber d \<and> T + d \<noteq> 0"
    then have "getIntervalMs iv = JSNumber d" by simp
    then have "0 < d" by (rule getIntervalMs_positive)
    then show "T < T + d" by simp
    fix e assume e: "e \<in> set (newExchanges w w')"
    from a have run: "syncCandlesticks env code iv w = Some (r, w')" by simp
    from a have "latestOf (storedTimes w (resolvedId w code) iv) = Some T"
      by (simp add: latestOf_Some)
    with sync_requests [OF run e] a
    have "fst e = buildParams (syncOptions code iv (Some (T + d)))"
      by (auto simp: startFor_def)
    with a show "fst e = \<lparr>q_symbol = code, q_interval = iv, q_startTime = Some (T + d),
                       q_endTime = None, q_limit = Some 1000\<rparr>"
      by (simp add: buildParams_def syncOptions_def truthy_def)
  qed
  show "syncCandlesticks env code iv w = Some (r, w')
        \<and> storedTimes w (resolvedId w code) iv = [] \<longrightarrow>
        (\<forall>e \<in> set (newExchanges w w').
              fst e = \<lparr>q_symbol = code, q_interval = iv, q_startTime = None,
                       q_endTime = None, q_limit = Some 1000\<rparr>)"
  proof (intro impI ballI)
    fix e
    assume a: "syncCandlesticks env code iv w = Some (r, w')
        \<and> storedTimes w (resolvedId w code) iv = []"
      and e: "e \<in> set (newExchanges w w')"
    from a have run: "syncCandlesticks env code iv w = Some (r, w')" by simp
    from a have "latestOf (storedTimes w (resolvedId w code) iv) = None"
      by (simp add: latestOf_None)
    with sync_requests [OF run e]
    have "fst e = buildParams (syncOptions code iv None)"
      by (auto simp: startFor_def)
    then show "fst e = \<lparr>q_symbol = code, q_interval = iv, q_startTime = None,
                       q_endTime = None, q_limit = Some 1000\<rparr>"
      by (simp add: buildParams_def syncOptions_def truthy_def)
  qed
qed

text \<open>
  A store primed with one hourly bar at 1000: the one request of the call starts at
  3601000. On the empty store the one request has no start.
\<close>

theorem sync_resumes_after_cursor_witness:
  "getIntervalMs ''1h'' = JSNumber 3600000
   \<and> getIntervalMs ''2m'' = JSNumber 60000
   \<and> (\<exists>r w'. syncCandlesticks (serving (\<lambda>n. Resolved [])) ''BTCUSDT'' ''1h'' (primed ''1h'' 1000)
                 = Some (r, w')
          \<and> map fst (newExchanges (primed ''1h'' 1000) w')
              = [\<lparr>q_symbol = ''BTCUSDT'', q_interval = ''1h'', q_startTime = Some 3601000,
                   q_endTime = None, q_limit = Some 1000\<rparr>])
   \<and> (\<exists>r w'. syncCandlesticks (serving (\<lambda>n. Resolved [])) ''BTCUSDT'' ''1h'' emptyWorld
                 = Some (r, w')
          \<and> map fst (newExchanges emptyWorld w')
              = [\<lparr>q_symbol = ''BTCUSDT'', q_interval = ''1h'', q_startTime = None,
                   q_endTime = None, q_limit = Some 1000\<rparr>])"
proof -
  let ?env = "serving (\<lambda>n. Resolved [])" and ?w = "primed ''1h'' 1000"
  have st: "storedTimes ?w (resolvedId ?w ''BTCUSDT'') ''1h'' = [1000]"
    by (simp add: storedTimes_def resolvedId_def primed_def matches_def toCandlestick_def bar_def)
  have st0: "storedTimes emptyWorld (resolvedId emptyWorld ''BTCUSDT'') ''1h'' = []"
    by (simp add: storedTimes_def emptyWorld_def)
  have mem: "(''1h'', 3600000) \<in> set intervalMap" by (simp add: intervalMap_def)
  have nomem: "''2m'' \<notin> fst ` set intervalMap \<and> ''2m'' \<notin> set objectPrototypeKeys"
    by (simp add: intervalMap_def objectPrototypeKeys_def)
  obtain r w' where run: "syncCandlesticks ?env ''BTCUSDT'' ''1h'' ?w = Some (r, w')"
    and len: "length (newExchanges ?w w') = 1"
    by (simp add: run_defs newExchanges_def)
  obtain r0 w0 where run0: "syncCandlesticks ?env ''BTCUSDT'' ''1h'' emptyWorld = Some (r0, w0)"
    and len0: "length (newExchanges emptyWorld w0) = 1"
    by (simp add: run_defs newExchanges_def)
  note a = sync_resumes_after_cursor [of "''1h''" 3600000 ?env "''BTCUSDT''" ?w r w' 1000 3600000]
  note b = sync_resumes_after_cursor [of "''2m''" 0 ?env "''BTCUSDT''" emptyWorld r0 w0 0 0]
  note c = sync_resumes_after_cursor [of "''1h''" 0 ?env "''BTCUSDT''" emptyWorld r0 w0 0 0]
  from a mem have d: "getIntervalMs ''1h'' = JSNumber 3600000" by blast
  from b nomem have d2: "getIntervalMs ''2m'' = JSNumber 60000" by blast
  from a run st d
  have "\<forall>e \<in> set (newExchanges ?w w').
          fst e = \<lparr>q_symbol = ''BTCUSDT'', q_interval = ''1h'', q_startTime = Some 3601000,
                   q_endTime = None, q_limit = Some 1000\<rparr>"
    by simp
  with len have e1: "map fst (newExchanges ?w w')
              = [\<lparr>q_symbol = ''BTCUSDT'', q_interval = ''1h'', q_startTime = Some 3601000,
                   q_endTime = None, q_limit = Some 1000\<rparr>]"
    by (cases "newExchanges ?w w'") auto
  from c run0 st0
  have "\<forall>e \<in> set (newExchanges emptyWorld w0).
          fst e = \<lparr>q_symbol = ''BTCUSDT'', q_interval = ''1h'', q_startTime = None,
                   q_endTime = None, q_limit = Some 1000\<rparr>"
    by simp
  with len0 have e0: "map fst (newExchanges emptyWorld w0)
              = [\<lparr>q_symbol = ''BTCUSDT'', q_interval = ''1h'', q_startTime = None,
                   q_endTime = None, q_limit = Some 1000\<rparr>]"
    by (cases "newExchanges emptyWorld w0") auto
  from run e1 have p1: "\<exists>r w'. syncCandlesticks ?env ''BTCUSDT'' ''1h'' ?w = Some (r, w')
          \<and> map fst (newExchanges ?w w')
              = [\<lparr>q_symbol = ''BTCUSDT'', q_interval = ''1h'', q_startTime = Some 3601000,
                   q_endTime = None, q_limit = Some 1000\<rparr>]"
    by (intro exI [of _ r] exI [of _ w'] conjI) assumption+
  from run0 e0 have p0: "\<exists>r w'. syncCandlesticks ?env ''BTCUSDT'' ''1h'' emptyWorld = Some (r, w')
          \<and> map fst (newExchanges emptyWorld w')
              = [\<lparr>q_symbol = ''BTCUSDT'', q_interval = ''1h'', q_startTime = None,
                   q_endTime = None, q_limit = Some 1000\<rparr>]"
    by (intro exI [of _ r0] exI [of _ w0] conjI) assumption+
  from d d2 p1 p0 show ?thesis by (intro conjI)
qed

text \<open>
  C3 as stated fails in three places. A stored maximum of 0 reads as no cursor, and the
  request has no start where the claim has 60000. A start time of 0 is left out of the
  request. And \<open>toString\<close> is an unknown interval that does not map to one minute: the
  lookup finds the inherited function, and the call with a cursor fails before it fetches.
\<close>

theorem start_time_exceptions:
  "storedTimes (primed ''1m'' 0) 1 ''1m'' = [0]
   \<and> (case syncCandlesticks (serving (\<lambda>n. Resolved [])) ''BTCUSDT'' ''1m'' (primed ''1m'' 0) of
        None \<Rightarrow> False
      | Some (r, w') \<Rightarrow>
          map (\<lambda>e. q_startTime (fst e)) (newExchanges (primed ''1m'' 0) w') = [None])
   \<and> storedTimes (primed ''1m'' (- 60000)) 1 ''1m'' = [- 60000]
   \<and> (case syncCandlesticks (serving (\<lambda>n. Resolved [])) ''BTCUSDT'' ''1m''
             (primed ''1m'' (- 60000)) of
        None \<Rightarrow> False
      | Some (r, w') \<Rightarrow>
          map (\<lambda>e. q_startTime (fst e)) (newExchanges (primed ''1m'' (- 60000)) w') = [None])
   \<and> getIntervalMs ''toString'' = JSInherited
   \<and> (case syncCandlesticks (serving (\<lambda>n. Resolved [])) ''BTCUSDT'' ''toString''
             (primed ''toString'' 1000) of
        None \<Rightarrow> False
      | Some (r, w') \<Rightarrow>
          \<not> success r \<and> message r = ''Sync failed: Invalid time value''
          \<and> newExchanges (primed ''toString'' 1000) w' = [])"
  by (simp add: run_defs newExchanges_def storedTimes_def objectPrototypeKeys_def)

subsection \<open>Two calls in a row\<close>

lemma fetchKlines_after:
  assumes thr: "\<forall>j<k. throttled (exchange env (length (httpLog w) + j) (buildParams opts))"
    and ans: "\<not> throttled (exchange env (length (httpLog w) + k) (buildParams opts))"
  shows "fetchKlines env opts w =
           Some (outcome (exchange env (length (httpLog w) + k) (buildParams opts)),
                 w\<lparr>httpLog := httpLog w @ requests env (buildParams opts) (length (httpLog w)) (Suc k),
                    logged := logged w @ replicate k LogRateLimit,
                    slept := slept w + 1000 * k\<rparr>)"
proof -
  from fetchKlines_returns [OF ans] obtain y where y: "fetchKlines env opts w = Some y" ..
  from fetchKlines_answered [OF y] obtain k' where k': "answeredAfter env opts w k' y" ..
  have "k' = k"
  proof (cases k' k rule: linorder_cases)
    case less
    with thr k' show ?thesis by (simp add: answeredAfter_def)
  next
    case greater
    with ans k' show ?thesis by (simp add: answeredAfter_def)
  qed
  with y k' show ?thesis by (simp add: answeredAfter_def)
qed

lemma second_call_quiet:
  assumes found: "find (\<lambda>row. sym_symbol row = code) (symbolsT w) = Some row"
    and nf: "dbFault env (dbCalls w) = None" "dbFault env (dbCalls w + 1) = None"
    and start: "startFor iv (latestOf (storedTimes w (sym_id row) iv)) start"
    and thr: "\<forall>j<k. throttled (exchange env (length (httpLog w) + j)
                                   (buildParams (syncOptions code iv start)))"
    and quiet: "exchange env (length (httpLog w) + k) (buildParams (syncOptions code iv start))
                  = Resolved []"
  shows "\<exists>w'. syncCandlesticks env code iv w =
           Some (\<lparr>success = True, message = ''No new candlesticks to sync'',
                   candlesticksAdded = 0,
                   latestTimestamp = latestOf (storedTimes w (sym_id row) iv)\<rparr>, w')
           \<and> sameStore w w'"
proof -
  let ?w0 = "logLine (LogStarting code iv) w"
  let ?w1 = "?w0\<lparr>dbCalls := dbCalls w + 1\<rparr>"
  let ?w2 = "?w0\<lparr>dbCalls := dbCalls w + 2\<rparr>"
  let ?latest = "latestOf (storedTimes w (sym_id row) iv)"
  have r: "resolveSymbol env code ?w0 = (Inr row, ?w1)"
    using found nf(1)
    by (simp add: resolveSymbol_def symbols_findBySymbol_def dbCall_def logLine_def)
  have g: "candlesticks_getLatestTimestamp env (sym_id row) iv ?w1 = (Inr ?latest, ?w2)"
    using nf(2)
    by (simp add: candlesticks_getLatestTimestamp_def dbCall_def logLine_def storedTimes_def)
  obtain ev where n: "nextStartTime iv ?latest ?w2 = (Inr start, logLine ev ?w2)"
    using start
    by (auto simp: nextStartTime_def startFor_def split: option.splits js_value.splits if_splits)
  let ?w3 = "logLine ev ?w2"
  let ?opts = "\<lparr>opt_symbol = code, opt_interval = iv,
                 opt_limit = Some (if truthy ?latest then 1000 else 1000),
                 opt_startTime = start, opt_endTime = None\<rparr>"
  have opts: "?opts = syncOptions code iv start" by (simp add: syncOptions_def)
  have log: "httpLog ?w3 = httpLog w" by (simp add: logLine_def)
  let ?w4 = "?w3\<lparr>httpLog := httpLog ?w3
                         @ requests env (buildParams ?opts) (length (httpLog ?w3)) (Suc k),
                  logged := logged ?w3 @ replicate k LogRateLimit,
                  slept := slept ?w3 + 1000 * k\<rparr>"
  have t: "\<forall>j<k. throttled (exchange env (length (httpLog ?w3) + j) (buildParams ?opts))"
    unfolding opts log by (rule thr)
  have q: "exchange env (length (httpLog ?w3) + k) (buildParams ?opts) = Resolved []"
    unfolding opts log by (rule quiet)
  then have a: "\<not> throttled (exchange env (length (httpLog ?w3) + k) (buildParams ?opts))"
    by (simp add: throttled_def)
  have f: "fetchKlines env ?opts ?w3 = Some (Inr [], ?w4)"
    using fetchKlines_after [OF t a] unfolding q by (simp add: outcome_def)
  have "tryBlock env code iv w = Some (storePage env code row iv ?latest [] ?w4)"
    unfolding tryBlock_def
    by (simp only: r g n f prod.case sum.case option.case)
  then have "syncCandlesticks env code iv w =
      Some (\<lparr>success = True, message = ''No new candlesticks to sync'',
              candlesticksAdded = 0, latestTimestamp = ?latest\<rparr>, ?w4)"
    by (simp add: syncCandlesticks_def storePage_def)
  moreover have "sameStore w ?w4"
    by (simp add: sameStore_def logLine_def)
  ultimately show ?thesis by blast
qed

text \<open>
  C4, as the code has it. A first call succeeds; in the second call the two database
  reads do not throw; the rows stored for the symbol and interval after the first call
  give a cursor \<open>T\<close> whose next start time \<open>T + d\<close> is a number inside the date range,
  or give none (no row, or a maximum of 0); and the exchange answers the request of the
  second call with an empty page, after any number of 429 answers. Then the second call
  returns success with \<open>candlesticksAdded = 0\<close> and the cursor as \<open>latestTimestamp\<close>
  (\<open>null\<close> when there is none), and leaves both tables and their sequences as they
  were.
\<close>

theorem second_sync_is_idle:
  assumes "syncCandlesticks env code iv w0 = Some (r1, w1)" and "success r1"
    and "dbFault env (dbCalls w1) = None" and "dbFault env (dbCalls w1 + 1) = None"
    and "ts = storedTimes w1 (resolvedId w1 code) iv"
    and "cursor = (if ts = [] \<or> Max (set ts) = 0 then None else Some (Max (set ts)))"
    and "\<forall>T. cursor = Some T \<longrightarrow> getIntervalMs iv = JSNumber d \<and> validDate (T + d)"
    and "p = buildParams (syncOptions code iv (map_option (\<lambda>T. T + d) cursor))"
    and "\<forall>j<k. throttled (exchange env (length (httpLog w1) + j) p)"
    and "exchange env (length (httpLog w1) + k) p = Resolved []"
  shows "\<exists>w2. syncCandlesticks env code iv w1 =
           Some (\<lparr>success = True, message = ''No new candlesticks to sync'',
                   candlesticksAdded = 0, latestTimestamp = cursor\<rparr>, w2)
           \<and> sameStore w1 w2"
proof -
  from assms(1) obtain row where
    found: "find (\<lambda>row. sym_symbol row = code) (symbolsT w1) = Some row"
    using assms(2) by (cases rule: sync_run) auto
  then have rid: "resolvedId w1 code = sym_id row" by (simp add: resolvedId_def)
  have lat: "latestOf (storedTimes w1 (sym_id row) iv) = cursor"
    using assms(5,6) rid
    by (cases "ts = [] \<or> Max (set ts) = 0") (auto simp: latestOf_None latestOf_Some)
  have start: "startFor iv (latestOf (storedTimes w1 (sym_id row) iv))
                 (map_option (\<lambda>T. T + d) cursor)"
    unfolding lat using assms(6,7)
    by (auto simp: startFor_def split: if_splits)
  from second_call_quiet [OF found assms(3,4) start assms(9,10) [unfolded assms(8)]] lat
  show ?thesis by simp
qed

text \<open>
  The first call stores the bars at 1000 and 61000; the exchange answers the second call
  with 429 and then with an empty page; the second call adds nothing, reports 61000 and
  leaves the store alone.
\<close>

theorem second_sync_is_idle_witness:
  "\<exists>r1 w1 w2.
      syncCandlesticks
        (serving (\<lambda>n. if n = 0 then Resolved [bar 1000, bar 61000]
                       else if n = 1 then tooManyRequests else Resolved []))
        ''BTCUSDT'' ''1m'' emptyWorld = Some (r1, w1)
    \<and> success r1 \<and> candlesticksAdded r1 = 2
    \<and> syncCandlesticks
        (serving (\<lambda>n. if n = 0 then Resolved [bar 1000, bar 61000]
                       else if n = 1 then tooManyRequests else Resolved []))
        ''BTCUSDT'' ''1m'' w1
        = Some (\<lparr>success = True, message = ''No new candlesticks to sync'',
                  candlesticksAdded = 0, latestTimestamp = Some 61000\<rparr>, w2)
    \<and> sameStore w1 w2"
proof -
  let ?env = "serving (\<lambda>n. if n = 0 then Resolved [bar 1000, bar 61000]
                            else if n = 1 then tooManyRequests else Resolved [])"
  have "\<exists>r1 w1. syncCandlesticks ?env ''BTCUSDT'' ''1m'' emptyWorld = Some (r1, w1)
      \<and> success r1 \<and> candlesticksAdded r1 = 2
      \<and> storedTimes w1 (resolvedId w1 ''BTCUSDT'') ''1m'' = [1000, 61000]
      \<and> length (httpLog w1) = 1"
    by (simp add: run_defs stored_def storedTimes_def resolvedId_def)
  then obtain r1 w1 where run1: "syncCandlesticks ?env ''BTCUSDT'' ''1m'' emptyWorld = Some (r1, w1)"
    and ok: "success r1" and added: "candlesticksAdded r1 = 2"
    and ts: "storedTimes w1 (resolvedId w1 ''BTCUSDT'') ''1m'' = [1000, 61000]"
    and len: "length (httpLog w1) = 1"
    by (elim exE conjE) (rule that; assumption)
  have cur: "Some 61000 = (if [1000, 61000::int] = [] \<or> Max (set [1000, 61000::int]) = 0 then None
                else Some (Max (set [1000, 61000::int])))"
    by simp
  have valid: "\<forall>T. Some (61000::int) = Some T \<longrightarrow>
      getIntervalMs ''1m'' = JSNumber 60000 \<and> validDate (T + 60000)"
    by (simp add: getIntervalMs_def intervalMap_def validDate_def)
  let ?p = "buildParams (syncOptions ''BTCUSDT'' ''1m'' (map_option (\<lambda>T. T + 60000) (Some 61000)))"
  have thr: "\<forall>j<1. throttled (exchange ?env (length (httpLog w1) + j) ?p)"
    by (simp add: serving_def len tooManyRequests_def throttled_def)
  have quiet: "exchange ?env (length (httpLog w1) + 1) ?p = Resolved []"
    by (simp add: serving_def len)
  have nf: "dbFault ?env (dbCalls w1) = None" "dbFault ?env (dbCalls w1 + 1) = None"
    by (simp_all add: serving_def)
  from second_sync_is_idle [OF run1 ok nf ts [symmetric] cur valid refl thr quiet]
  obtain w2 where "syncCandlesticks ?env ''BTCUSDT'' ''1m'' w1
        = Some (\<lparr>success = True, message = ''No new candlesticks to sync'',
                  candlesticksAdded = 0, latestTimestamp = Some 61000\<rparr>, w2)"
    "sameStore w1 w2"
    by (elim exE conjE) (rule that; assumption)
  with run1 ok added show ?thesis
    by (intro exI [of _ r1] exI [of _ w1] exI [of _ w2] conjI) assumption+
qed

text \<open>
  C4 as stated fails in three places, each time with a first call that succeeds and an
  exchange that has no bars after it. When the stored bar opens at 0 the second call
  reports \<open>null\<close>, not the cursor 0. When the interval is \<open>toString\<close>, or the stored
  bar opens so late that the next start time is no valid date, the second call fails.
\<close>

theorem second_sync_exceptions:
  "(case syncCandlesticks (serving (\<lambda>n. if n = 0 then Resolved [bar 0] else Resolved []))
           ''BTCUSDT'' ''1m'' emptyWorld of
      None \<Rightarrow> False
    | Some (r1, w1) \<Rightarrow>
        success r1 \<and> storedTimes w1 1 ''1m'' = [0]
        \<and> (case syncCandlesticks
                   (serving (\<lambda>n. if n = 0 then Resolved [bar 0] else Resolved []))
                   ''BTCUSDT'' ''1m'' w1 of
              None \<Rightarrow> False
            | Some (r2, w2) \<Rightarrow> success r2 \<and> latestTimestamp r2 = None))
   \<and> (case syncCandlesticks (serving (\<lambda>n. if n = 0 then Resolved [bar 1000] else Resolved []))
           ''BTCUSDT'' ''toString'' emptyWorld of
      None \<Rightarrow> False
    | Some (r1, w1) \<Rightarrow>
        success r1 \<and> storedTimes w1 1 ''toString'' = [1000]
        \<and> (case syncCandlesticks
                   (serving (\<lambda>n. if n = 0 then Resolved [bar 1000] else Resolved []))
                   ''BTCUSDT'' ''toString'' w1 of
              None \<Rightarrow> False
            | Some (r2, w2) \<Rightarrow>
                \<not> success r2 \<and> message r2 = ''Sync failed: Invalid time value''))
   \<and> (case syncCandlesticks
           (serving (\<lambda>n. if n = 0 then Resolved [bar 8640000000000000] else Resolved []))
           ''BTCUSDT'' ''1m'' emptyWorld of
      None \<Rightarrow> False
    | Some (r1, w1) \<Rightarrow>
        success r1 \<and> storedTimes w1 1 ''1m'' = [8640000000000000]
        \<and> (case syncCandlesticks
                   (serving (\<lambda>n. if n = 0 then Resolved [bar 8640000000000000]
                                  else Resolved []))
                   ''BTCUSDT'' ''1m'' w1 of
              None \<Rightarrow> False
            | Some (r2, w2) \<Rightarrow>
                \<not> success r2 \<and> message r2 = ''Sync failed: Invalid time value''))"
  by (simp add: run_defs stored_def storedTimes_def objectPrototypeKeys_def)

end
